theory Spec2Isabelle
  imports Complex_Main
begin

section \<open>JavaScript values, query parameters and the library functions the controller calls\<close>

text \<open>
  The controller \<^verbatim>\<open>listingProperty.service.js\<close> handles loosely typed values. A JavaScript
  number is one of the constructors of \<open>jsnum\<close>; a value that ends up in a filter document, in
  a stored document or in a response body is a \<open>jv\<close>. An object is an association list in
  insertion order, since \<^verbatim>\<open>JSON.stringify\<close> (and with it the cache key) follows that order.
  \<open>JOid h\<close> is an \<^verbatim>\<open>ObjectId\<close> with hexadecimal form \<open>h\<close>; \<open>JDate t\<close> is a \<^verbatim>\<open>Date\<close> with time
  value \<open>t\<close> in milliseconds, \<open>None\<close> being the time value NaN of an Invalid Date.
\<close>

datatype jsnum = Finite rat | NaN | PosInfinity | NegInfinity

datatype jv =
    JNull
  | JBool bool
  | JNum jsnum
  | JStr string
  | JOid string
  | JDate "int option"
  | JArr "jv list"
  | JObj "(string \<times> jv) list"

type_synonym doc = "(string \<times> jv) list"

text \<open>
  A value of \<^verbatim>\<open>req.query\<close>: a string, or the list of strings of a repeated parameter. An
  absent parameter (\<^verbatim>\<open>undefined\<close>) is \<open>None\<close>.
\<close>

datatype qparam = QStr string | QArr "string list"

fun qv :: "qparam \<Rightarrow> jv" where
  "qv (QStr s) = JStr s"
| "qv (QArr xs) = JArr (map JStr xs)"

text \<open>
  The guard \<^verbatim>\<open>if (req.query?.x)\<close>: \<^verbatim>\<open>undefined\<close> and the empty string are falsy, every
  other string and every array (the empty one too) is truthy.
\<close>

fun truthy :: "qparam option \<Rightarrow> bool" where
  "truthy None = False"
| "truthy (Some (QStr s)) = (s \<noteq> [])"
| "truthy (Some (QArr xs)) = True"

record query_params =
  typeId :: "qparam option"
  stateId :: "qparam option"
  cityId :: "qparam option"
  title :: "qparam option"
  availableFrom :: "qparam option"
  minPrice :: "qparam option"
  maxPrice :: "qparam option"
  minBedrooms :: "qparam option"
  minBathrooms :: "qparam option"
  minRating :: "qparam option"
  listingType :: "qparam option"
  furnished :: "qparam option"
  amenityIds :: "qparam option"
  tagIds :: "qparam option"

definition empty_query :: query_params where
  "empty_query = \<lparr> typeId = None, stateId = None, cityId = None, title = None,
     availableFrom = None, minPrice = None, maxPrice = None, minBedrooms = None,
     minBathrooms = None, minRating = None, listingType = None, furnished = None,
     amenityIds = None, tagIds = None \<rparr>"

text \<open>
  The functions of the JavaScript runtime and of the \<^verbatim>\<open>mongodb\<close> package that the controller
  calls are parameters of the model, typed by what they can do:
  \<^item> \<^verbatim>\<open>new ObjectId(v)\<close> returns the identifier's hexadecimal form or throws (\<open>None\<close>);
  \<^item> \<^verbatim>\<open>new Date(v)\<close> never throws: it returns a time value, NaN (\<open>None\<close>) when \<open>v\<close> does not
    parse;
  \<^item> \<^verbatim>\<open>Number(v)\<close> never throws;
  \<^item> \<^verbatim>\<open>JSON.stringify(v)\<close> returns a text; \<^verbatim>\<open>JSON.parse(s)\<close> returns a value or throws
    (\<open>None\<close>).
\<close>

record runtime =
  new_ObjectId :: "jv \<Rightarrow> string option"
  new_Date :: "jv \<Rightarrow> int option"
  Number :: "jv \<Rightarrow> jsnum"
  JSON_stringify :: "jv \<Rightarrow> string"
  JSON_parse :: "string \<Rightarrow> jv option"

datatype error = BSONError | TypeError | SyntaxError

definition ebind :: "error + 'a \<Rightarrow> ('a \<Rightarrow> error + 'b) \<Rightarrow> error + 'b" where
  "ebind m f = (case m of Inl e \<Rightarrow> Inl e | Inr x \<Rightarrow> f x)"

section \<open>The filter document of \<^verbatim>\<open>getProperties\<close>\<close>

text \<open>
  \<^verbatim>\<open>findQuery\<close> starts as the empty object and every assignment of lines 11 to 52 names a
  different key, so each guarded assignment contributes its entry, or nothing, at the end of
  the association list.
\<close>

definition oid_field :: "runtime \<Rightarrow> string \<Rightarrow> qparam option \<Rightarrow> error + doc" where
  "oid_field rt k p =
     (case p of
        None \<Rightarrow> Inr []
      | Some v \<Rightarrow>
          if truthy p
          then (case new_ObjectId rt (qv v) of
                  None \<Rightarrow> Inl BSONError
                | Some h \<Rightarrow> Inr [(k, JOid h)])
          else Inr [])"

definition regex_field :: "string \<Rightarrow> qparam option \<Rightarrow> doc" where
  "regex_field k p =
     (case p of
        None \<Rightarrow> []
      | Some v \<Rightarrow>
          if truthy p then [(k, JObj [(''$regex'', qv v), (''$options'', JStr ''i'')])] else [])"

definition date_field :: "runtime \<Rightarrow> string \<Rightarrow> qparam option \<Rightarrow> doc" where
  "date_field rt k p =
     (case p of
        None \<Rightarrow> []
      | Some v \<Rightarrow>
          if truthy p then [(k, JObj [(''$lte'', JDate (new_Date rt (qv v)))])] else [])"

definition num_bound :: "runtime \<Rightarrow> string \<Rightarrow> qparam option \<Rightarrow> doc" where
  "num_bound rt opr p =
     (case p of
        None \<Rightarrow> []
      | Some v \<Rightarrow> if truthy p then [(opr, JNum (Number rt (qv v)))] else [])"

definition price_field :: "runtime \<Rightarrow> qparam option \<Rightarrow> qparam option \<Rightarrow> doc" where
  "price_field rt lo hi =
     (if truthy lo \<or> truthy hi
      then [(''price'', JObj (num_bound rt ''$gte'' lo @ num_bound rt ''$lte'' hi))]
      else [])"

definition min_field :: "runtime \<Rightarrow> string \<Rightarrow> qparam option \<Rightarrow> doc" where
  "min_field rt k p =
     (case p of
        None \<Rightarrow> []
      | Some v \<Rightarrow>
          if truthy p then [(k, JObj [(''$gte'', JNum (Number rt (qv v)))])] else [])"

definition raw_field :: "string \<Rightarrow> qparam option \<Rightarrow> doc" where
  "raw_field k p =
     (case p of
        None \<Rightarrow> []
      | Some v \<Rightarrow> if truthy p then [(k, qv v)] else [])"

text \<open>
  Lines 37 to 45: a truthy value of type string is wrapped into a one-element array; every
  other value is kept.
\<close>

definition processedIds :: "qparam option \<Rightarrow> qparam option" where
  "processedIds p =
     (case p of
        Some (QStr s) \<Rightarrow> if truthy p then Some (QArr [s]) else p
      | _ \<Rightarrow> p)"

fun map_ObjectId :: "runtime \<Rightarrow> string list \<Rightarrow> error + jv list" where
  "map_ObjectId rt [] = Inr []"
| "map_ObjectId rt (x # xs) =
     (case new_ObjectId rt (JStr x) of
        None \<Rightarrow> Inl BSONError
      | Some h \<Rightarrow>
          (case map_ObjectId rt xs of
             Inl e \<Rightarrow> Inl e
           | Inr hs \<Rightarrow> Inr (JOid h # hs)))"

text \<open>
  Lines 47 to 52. A truthy string has no \<^verbatim>\<open>map\<close> method, so the call would be a
  \<^verbatim>\<open>TypeError\<close>; after \<open>processedIds\<close> that branch is never taken.
\<close>

definition all_field :: "runtime \<Rightarrow> string \<Rightarrow> qparam option \<Rightarrow> error + doc" where
  "all_field rt k p =
     (case p of
        None \<Rightarrow> Inr []
      | Some (QStr s) \<Rightarrow> if truthy p then Inl TypeError else Inr []
      | Some (QArr xs) \<Rightarrow>
          (case map_ObjectId rt xs of
             Inl e \<Rightarrow> Inl e
           | Inr hs \<Rightarrow> Inr [(k, JObj [(''$all'', JArr hs)])]))"

text \<open>
  Lines 8 to 52. Only \<^verbatim>\<open>new ObjectId\<close> can throw: for the three identifier parameters
  (lines 11 to 13) and, after all the other assignments, for the entries of the two
  identifier lists (lines 47 to 52). The first throw ends the function; the assignments in
  between cannot fail, so they are gathered in the result in their order.
\<close>

definition buildFilter :: "runtime \<Rightarrow> query_params \<Rightarrow> error + doc" where
  "buildFilter rt q =
     ebind (oid_field rt ''typeId'' (typeId q)) (\<lambda>f1.
     ebind (oid_field rt ''stateId'' (stateId q)) (\<lambda>f2.
     ebind (oid_field rt ''cityId'' (cityId q)) (\<lambda>f3.
     ebind (all_field rt ''amenityIds'' (processedIds (amenityIds q))) (\<lambda>f12.
     ebind (all_field rt ''tagIds'' (processedIds (tagIds q))) (\<lambda>f13.
       Inr (f1 @ f2 @ f3
            @ regex_field ''title'' (title q)
            @ date_field rt ''availableFrom'' (availableFrom q)
            @ price_field rt (minPrice q) (maxPrice q)
            @ min_field rt ''bedrooms'' (minBedrooms q)
            @ min_field rt ''bathrooms'' (minBathrooms q)
            @ min_field rt ''rating'' (minRating q)
            @ raw_field ''listingType'' (listingType q)
            @ raw_field ''furnished'' (furnished q)
            @ f12 @ f13))))))"


section \<open>The cache store\<close>

text \<open>
  Modelled from the spec: the module \<^verbatim>\<open>helper/redisClient\<close> is not part of the sources at
  hand. The spec gives the cache store the interface \<^verbatim>\<open>get(key) -> string|absent\<close>,
  \<^verbatim>\<open>setWithExpiry(key, ttlSeconds, value)\<close> and \<^verbatim>\<open>delete(keyOrPattern)\<close>, an entry being
  treated as absent after its TTL, and a deletion evicting every entry whose key matches the
  pattern (the example being all keys prefixed \<^verbatim>\<open>properties:\<close>). An entry is kept with the
  time, in milliseconds, at which it expires. In a pattern \<^verbatim>\<open>*\<close> stands for any run of
  characters and every other character for itself, so a key without \<^verbatim>\<open>*\<close> matches only
  itself.
\<close>

type_synonym cache_store = "string \<Rightarrow> (nat \<times> string) option"

fun glob_match :: "string \<Rightarrow> string \<Rightarrow> bool" where
  "glob_match [] s = (s = [])"
| "glob_match (p # ps) [] = (p = CHR ''*'' \<and> glob_match ps [])"
| "glob_match (p # ps) (c # cs) =
     (if p = CHR ''*''
      then glob_match ps (c # cs) \<or> glob_match (p # ps) cs
      else p = c \<and> glob_match ps cs)"

definition redis_get :: "nat \<Rightarrow> cache_store \<Rightarrow> string \<Rightarrow> string option" where
  "redis_get now c k =
     (case c k of
        None \<Rightarrow> None
      | Some (expiry, v) \<Rightarrow> if now < expiry then Some v else None)"

definition redis_setex :: "nat \<Rightarrow> string \<Rightarrow> nat \<Rightarrow> string \<Rightarrow> cache_store \<Rightarrow> cache_store" where
  "redis_setex now k ttl v c = c(k \<mapsto> (now + ttl * 1000, v))"

definition redis_del :: "string \<Rightarrow> cache_store \<Rightarrow> cache_store" where
  "redis_del pat c = (\<lambda>k. if glob_match pat k then None else c k)"

section \<open>The persistence store\<close>

text \<open>
  Modelled from the spec: the module \<^verbatim>\<open>listingProperty.queries\<close> is not part of the sources
  at hand. The spec gives the persistence store the interface \<^verbatim>\<open>find(filter) -> list\<close> and
  \<^verbatim>\<open>findOne/updateOne/deleteOne(filter, ...) -> Property|null\<close>, returning null or the empty
  list for "not found", and fixed reads for each reference list. The store keeps the
  property documents in insertion order. A filter is the conjunction of its entries. An
  entry whose value is not an object asks for that exact value; \<^verbatim>\<open>$gte\<close> and \<^verbatim>\<open>$lte\<close> are the
  inclusive bounds on numbers and on dates, \<^verbatim>\<open>$all\<close> asks that the stored list contain all
  the listed values, and \<^verbatim>\<open>$regex\<close> with the option \<^verbatim>\<open>i\<close> is the case-insensitive substring
  match.
\<close>

fun num_le :: "jsnum \<Rightarrow> jsnum \<Rightarrow> bool" where
  "num_le NaN _ = False"
| "num_le _ NaN = False"
| "num_le NegInfinity _ = True"
| "num_le _ PosInfinity = True"
| "num_le (Finite a) (Finite b) = (a \<le> b)"
| "num_le _ _ = False"

fun value_le :: "jv \<Rightarrow> jv \<Rightarrow> bool" where
  "value_le (JNum a) (JNum b) = num_le a b"
| "value_le (JDate (Some a)) (JDate (Some b)) = (a \<le> b)"
| "value_le _ _ = False"

definition lower :: "char \<Rightarrow> char" where
  "lower c =
     (case map_of (zip ''ABCDEFGHIJKLMNOPQRSTUVWXYZ'' ''abcdefghijklmnopqrstuvwxyz'') c of
        None \<Rightarrow> c
      | Some l \<Rightarrow> l)"

fun contains :: "string \<Rightarrow> string \<Rightarrow> bool" where
  "contains p [] = (p = [])"
| "contains p (c # cs) = (take (length p) (c # cs) = p \<or> contains p cs)"

definition op_holds :: "jv option \<Rightarrow> string \<Rightarrow> jv \<Rightarrow> bool" where
  "op_holds fv opr arg =
     (if opr = ''$gte'' then (case fv of Some x \<Rightarrow> value_le arg x | None \<Rightarrow> False)
      else if opr = ''$lte'' then (case fv of Some x \<Rightarrow> value_le x arg | None \<Rightarrow> False)
      else if opr = ''$all'' then
        (case (fv, arg) of
           (Some (JArr xs), JArr vs) \<Rightarrow> list_all (\<lambda>v. v \<in> set xs) vs
         | _ \<Rightarrow> False)
      else if opr = ''$regex'' then
        (case (fv, arg) of
           (Some (JStr s), JStr p) \<Rightarrow> contains (map lower p) (map lower s)
         | _ \<Rightarrow> False)
      else opr = ''$options'')"

definition constraint_holds :: "jv option \<Rightarrow> jv \<Rightarrow> bool" where
  "constraint_holds fv c =
     (case c of
        JObj ops \<Rightarrow> list_all (\<lambda>(opr, arg). op_holds fv opr arg) ops
      | _ \<Rightarrow> fv = Some c)"

definition matches :: "doc \<Rightarrow> doc \<Rightarrow> bool" where
  "matches d f = list_all (\<lambda>(k, c). constraint_holds (map_of d k) c) f"

text \<open>Setting a property of an object: an existing key keeps its place.\<close>

fun assign :: "string \<Rightarrow> jv \<Rightarrow> doc \<Rightarrow> doc" where
  "assign k v [] = [(k, v)]"
| "assign k v ((k', v') # d) = (if k' = k then (k, v) # d else (k', v') # assign k v d)"

record persistence =
  properties :: "doc list"
  cities :: "jv list"
  states :: "jv list"
  propertyTypes :: "jv list"
  propertyTags :: "jv list"
  amenities :: "jv list"

definition q_find :: "doc \<Rightarrow> doc list \<Rightarrow> jv" where
  "q_find f ds = JArr (map JObj (filter (\<lambda>d. matches d f) ds))"

definition q_createProperty :: "doc \<Rightarrow> doc list \<Rightarrow> jv \<times> doc list" where
  "q_createProperty d ds = (JObj d, ds @ [d])"

fun q_deleteProperty :: "doc \<Rightarrow> doc list \<Rightarrow> doc option \<times> doc list" where
  "q_deleteProperty f [] = (None, [])"
| "q_deleteProperty f (d # ds) =
     (if matches d f then (Some d, ds)
      else (case q_deleteProperty f ds of (r, ds') \<Rightarrow> (r, d # ds')))"

text \<open>The update document is \<^verbatim>\<open>{ $set: fields }\<close>: each listed field is set, in order.\<close>

definition apply_update :: "jv \<Rightarrow> doc \<Rightarrow> doc" where
  "apply_update upd d =
     (case upd of
        JObj [(opr, JObj kvs)] \<Rightarrow>
          if opr = ''$set'' then fold (\<lambda>(k, v). assign k v) kvs d else d
      | _ \<Rightarrow> d)"

fun q_updateProperty :: "doc \<Rightarrow> jv \<Rightarrow> doc list \<Rightarrow> doc option \<times> doc list" where
  "q_updateProperty f upd [] = (None, [])"
| "q_updateProperty f upd (d # ds) =
     (if matches d f then (Some (apply_update upd d), apply_update upd d # ds)
      else (case q_updateProperty f upd ds of (r, ds') \<Rightarrow> (r, d # ds')))"


section \<open>Requests, responses and the state of the two stores\<close>

text \<open>
  \<^verbatim>\<open>req.user.id\<close> is set by the authentication layer: a string, or an \<^verbatim>\<open>ObjectId\<close>. In a
  template literal both read as the same text.
\<close>

datatype userid = UserStr string | UserOid string

fun user_jv :: "userid \<Rightarrow> jv" where
  "user_jv (UserStr s) = JStr s"
| "user_jv (UserOid h) = JOid h"

fun user_text :: "userid \<Rightarrow> string" where
  "user_text (UserStr s) = s"
| "user_text (UserOid h) = h"

record request =
  req_query :: query_params
  req_body :: doc
  req_params_id :: string
  req_user_id :: userid

text \<open>
  A handler ends with \<^verbatim>\<open>res.status(n).json(body)\<close> or, from its \<^verbatim>\<open>catch\<close>, with
  \<^verbatim>\<open>next(error)\<close>.
\<close>

datatype outcome = Response nat doc | Next error

text \<open>
  The state is the content of the two stores, the calls made to them so far, and the clock
  (milliseconds) that \<^verbatim>\<open>Date.now()\<close> and the cache store read. The store clients are taken
  not to fail.
\<close>

datatype event =
    Redis_get string
  | Redis_setex string nat string
  | Redis_del string
  | Query string "jv list"

record state =
  cache :: cache_store
  store :: persistence
  calls :: "event list"
  clock :: nat

text \<open>The two values that the controller reads from \<^verbatim>\<open>config\<close>, in seconds.\<close>

record config =
  CACHE_TTL :: nat
  PROPERTY_CACHE_TTL :: nat

fun show_nat :: "nat \<Rightarrow> string" where
  "show_nat n =
     (if n < 10 then [''0123456789'' ! n]
      else show_nat (n div 10) @ [''0123456789'' ! (n mod 10)])"

declare show_nat.simps [simp del]

section \<open>The handlers\<close>

text \<open>
  The seven reads share their second half (lines 56 to 67, 103 to 114, 176 to 187 and so
  on): look the key up; a truthy cached text is parsed and returned; otherwise the result of
  the query is stored under the key with the TTL and returned. \<open>result\<close> is the value of the
  query, which only the second branch uses.
\<close>

definition cacheAside ::
  "runtime \<Rightarrow> string \<Rightarrow> nat \<Rightarrow> string \<Rightarrow> string \<Rightarrow> string \<Rightarrow> event \<Rightarrow> jv \<Rightarrow> state
     \<Rightarrow> outcome \<times> state" where
  "cacheAside rt cacheKey ttl hitMessage missMessage field query result st =
     (let st1 = st\<lparr>calls := calls st @ [Redis_get cacheKey]\<rparr>;
          miss =
            (Response 200 [(''message'', JStr missMessage), (field, result)],
             st1\<lparr>cache := redis_setex (clock st) cacheKey ttl (JSON_stringify rt result) (cache st),
                 calls := calls st1 @ [query, Redis_setex cacheKey ttl (JSON_stringify rt result)]\<rparr>)
      in case redis_get (clock st) (cache st) cacheKey of
           None \<Rightarrow> miss
         | Some cached \<Rightarrow>
             if cached = [] then miss
             else (case JSON_parse rt cached of
                     None \<Rightarrow> (Next SyntaxError, st1)
                   | Some parsed \<Rightarrow>
                       (Response 200 [(''message'', JStr hitMessage), (field, parsed)], st1)))"

definition getProperties :: "runtime \<Rightarrow> config \<Rightarrow> request \<Rightarrow> state \<Rightarrow> outcome \<times> state" where
  "getProperties rt cfg req st =
     (case buildFilter rt (req_query req) of
        Inl e \<Rightarrow> (Next e, st)
      | Inr findQuery \<Rightarrow>
          cacheAside rt (''properties:'' @ JSON_stringify rt (JObj findQuery))
            (PROPERTY_CACHE_TTL cfg)
            ''Properties fetched successfully from cache''
            ''Properties fetched successfully''
            ''properties''
            (Query ''getProperties'' [JObj findQuery])
            (q_find findQuery (properties (store st)))
            st)"

definition postProperty :: "request \<Rightarrow> state \<Rightarrow> outcome \<times> state" where
  "postProperty req st =
     (let propertyData =
            assign ''isVerified'' (JBool False)
              (assign ''listerId'' (user_jv (req_user_id req))
                 (assign ''id'' (JStr (show_nat (clock st))) (req_body req)));
          (result, ds) = q_createProperty propertyData (properties (store st));
          st1 = st\<lparr>store := (store st)\<lparr>properties := ds\<rparr>,
                   calls := calls st @ [Query ''createProperty'' [JObj propertyData]]\<rparr>;
          st2 = st1\<lparr>cache := redis_del ''properties:*'' (cache st1),
                    calls := calls st1 @ [Redis_del ''properties:*'']\<rparr>
      in (Response 201
            [(''message'', JStr ''Property listed successfully''), (''property'', result)],
          st2))"

definition getMyProperties :: "runtime \<Rightarrow> config \<Rightarrow> request \<Rightarrow> state \<Rightarrow> outcome \<times> state" where
  "getMyProperties rt cfg req st =
     (case new_ObjectId rt (user_jv (req_user_id req)) of
        None \<Rightarrow> (Next BSONError, st)
      | Some u \<Rightarrow>
          (let findQuery = [(''listerId'', JOid u)]
           in cacheAside rt (''myProperties:'' @ user_text (req_user_id req))
                (PROPERTY_CACHE_TTL cfg)
                ''My properties fetched successfully from cache''
                ''My properties fetched successfully''
                ''properties''
                (Query ''getMyProperties'' [JObj findQuery])
                (q_find findQuery (properties (store st)))
                st))"

definition deleteProperty :: "runtime \<Rightarrow> request \<Rightarrow> state \<Rightarrow> outcome \<times> state" where
  "deleteProperty rt req st =
     (case new_ObjectId rt (user_jv (req_user_id req)) of
        None \<Rightarrow> (Next BSONError, st)
      | Some u \<Rightarrow>
          (let deleteQuery = [(''_id'', JStr (req_params_id req)), (''listerId'', JOid u)];
               (deletedProperty, ds) = q_deleteProperty deleteQuery (properties (store st));
               st1 = st\<lparr>store := (store st)\<lparr>properties := ds\<rparr>,
                        calls := calls st @ [Query ''deleteProperty'' [JObj deleteQuery]]\<rparr>
           in case deletedProperty of
                None \<Rightarrow>
                  (Response 404
                     [(''message'',
                       JStr ''Property not found or you don't have permission to delete it'')],
                   st1)
              | Some d \<Rightarrow>
                  (Response 200
                     [(''message'', JStr ''Property deleted successfully''),
                      (''property'', JObj d)],
                   st1\<lparr>cache :=
                         redis_del (''myProperties:'' @ user_text (req_user_id req))
                           (redis_del ''properties:*'' (cache st1)),
                       calls := calls st1 @
                         [Redis_del ''properties:*'',
                          Redis_del (''myProperties:'' @ user_text (req_user_id req))]\<rparr>)))"

definition updateProperty :: "runtime \<Rightarrow> request \<Rightarrow> state \<Rightarrow> outcome \<times> state" where
  "updateProperty rt req st =
     (case new_ObjectId rt (JStr (req_params_id req)) of
        None \<Rightarrow> (Next BSONError, st)
      | Some p \<Rightarrow>
     (case new_ObjectId rt (user_jv (req_user_id req)) of
        None \<Rightarrow> (Next BSONError, st)
      | Some u \<Rightarrow>
          (let updateQuery = [(''_id'', JOid p), (''listerId'', JOid u)];
               update = JObj [(''$set'', JObj (req_body req))];
               (updatedProperty, ds) =
                 q_updateProperty updateQuery update (properties (store st));
               st1 = st\<lparr>store := (store st)\<lparr>properties := ds\<rparr>,
                        calls := calls st @ [Query ''updateProperty'' [JObj updateQuery, update]]\<rparr>
           in case updatedProperty of
                None \<Rightarrow>
                  (Response 404
                     [(''message'',
                       JStr ''Property not found or you don't have permission to update it'')],
                   st1)
              | Some d \<Rightarrow>
                  (Response 200
                     [(''message'', JStr ''Property updated successfully''),
                      (''property'', JObj d)],
                   st1\<lparr>cache :=
                         redis_del (''myProperties:'' @ user_text (req_user_id req))
                           (redis_del ''properties:*'' (cache st1)),
                       calls := calls st1 @
                         [Redis_del ''properties:*'',
                          Redis_del (''myProperties:'' @ user_text (req_user_id req))]\<rparr>))))"

definition getCity :: "runtime \<Rightarrow> config \<Rightarrow> state \<Rightarrow> outcome \<times> state" where
  "getCity rt cfg st =
     cacheAside rt ''cities'' (CACHE_TTL cfg)
       ''Cities fetched successfully from cache'' ''Cities fetched successfully''
       ''cities'' (Query ''getCity'' []) (JArr (cities (store st))) st"

definition getState :: "runtime \<Rightarrow> config \<Rightarrow> state \<Rightarrow> outcome \<times> state" where
  "getState rt cfg st =
     cacheAside rt ''states'' (CACHE_TTL cfg)
       ''States fetched successfully from cache'' ''States fetched successfully''
       ''states'' (Query ''getState'' []) (JArr (states (store st))) st"

definition getPropertyType :: "runtime \<Rightarrow> config \<Rightarrow> state \<Rightarrow> outcome \<times> state" where
  "getPropertyType rt cfg st =
     cacheAside rt ''propertyTypes'' (CACHE_TTL cfg)
       ''Property Types fetched successfully from cache''
       ''Property Types fetched successfully''
       ''propertyTypes'' (Query ''getPropertyType'' []) (JArr (propertyTypes (store st))) st"

definition getPropertyTag :: "runtime \<Rightarrow> config \<Rightarrow> state \<Rightarrow> outcome \<times> state" where
  "getPropertyTag rt cfg st =
     cacheAside rt ''propertyTags'' (CACHE_TTL cfg)
       ''Property Tags fetched successfully from cache''
       ''Property Tags fetched successfully''
       ''propertyTags'' (Query ''getPropertyTag'' []) (JArr (propertyTags (store st))) st"

definition getAmenity :: "runtime \<Rightarrow> config \<Rightarrow> state \<Rightarrow> outcome \<times> state" where
  "getAmenity rt cfg st =
     cacheAside rt ''amenities'' (CACHE_TTL cfg)
       ''Amenities fetched successfully from cache'' ''Amenities fetched successfully''
       ''amenities'' (Query ''getAmenity'' []) (JArr (amenities (store st))) st"


section \<open>A runtime for the examples\<close>

text \<open>
  The theorems below hold for every runtime. Their examples run against \<open>node_rt\<close>, which
  fixes the library functions on a fragment of their arguments, with the values that Node.js
  and version 6 of the \<^verbatim>\<open>bson\<close> package return there:
  \<^item> \<^verbatim>\<open>new ObjectId\<close> accepts a string of 24 hexadecimal digits and an \<^verbatim>\<open>ObjectId\<close>, and
    throws on every other string and on an array;
  \<^item> \<^verbatim>\<open>new Date\<close> reads the four-digit year form \<^verbatim>\<open>YYYY\<close> (midnight UTC of its first of
    January); the other forms that Node.js reads are outside the fragment;
  \<^item> \<^verbatim>\<open>Number\<close> converts a string of one to fifteen decimal digits; the other numeric
    literals are outside the fragment;
  \<^item> \<^verbatim>\<open>JSON.stringify\<close> writes null, booleans, integers below \<open>2\<^sup>5\<^sup>3\<close> in absolute value,
    strings, identifiers, arrays, objects, and the dates of the years 0 to 9999; NaN, the
    infinities and an Invalid Date are written \<^verbatim>\<open>null\<close>;
  \<^item> \<^verbatim>\<open>JSON.parse\<close> reads the text of the empty array.
  No example passes an argument outside the fragment.
\<close>

definition is_digit :: "char \<Rightarrow> bool" where
  "is_digit c = (let n = (of_char c :: nat) in 48 \<le> n \<and> n \<le> 57)"

definition is_hex :: "char \<Rightarrow> bool" where
  "is_hex c =
     (let n = (of_char c :: nat)
      in 48 \<le> n \<and> n \<le> 57 \<or> 65 \<le> n \<and> n \<le> 70 \<or> 97 \<le> n \<and> n \<le> 102)"

definition read_nat :: "string \<Rightarrow> nat" where
  "read_nat s = foldl (\<lambda>acc c. 10 * acc + (of_char c - 48)) 0 s"

definition node_ObjectId :: "jv \<Rightarrow> string option" where
  "node_ObjectId v =
     (case v of
        JStr s \<Rightarrow> if length s = 24 \<and> list_all is_hex s then Some (map lower s) else None
      | JOid h \<Rightarrow> Some h
      | _ \<Rightarrow> None)"

definition leap_days :: "int \<Rightarrow> int" where
  "leap_days y = y div 4 - y div 100 + y div 400"

definition node_Date :: "jv \<Rightarrow> int option" where
  "node_Date v =
     (case v of
        JStr s \<Rightarrow>
          if length s = 4 \<and> list_all is_digit s
          then (let y = int (read_nat s)
                in Some ((365 * (y - 1970) + leap_days (y - 1) - leap_days 1969) * 86400000))
          else None
      | _ \<Rightarrow> None)"

definition node_Number :: "jv \<Rightarrow> jsnum" where
  "node_Number v =
     (case v of
        JStr s \<Rightarrow>
          if s \<noteq> [] \<and> length s \<le> 15 \<and> list_all is_digit s
          then Finite (of_nat (read_nat s))
          else NaN
      | _ \<Rightarrow> NaN)"

definition pad :: "nat \<Rightarrow> nat \<Rightarrow> string" where
  "pad w n = replicate (w - length (show_nat n)) (CHR ''0'') @ show_nat n"

text \<open>The calendar date of a day number (days since the first of January 1970).\<close>

definition civil :: "int \<Rightarrow> int \<times> int \<times> int" where
  "civil days =
     (let z = days + 719468;
          era = z div 146097;
          doe = z - era * 146097;
          yoe = (doe - doe div 1460 + doe div 36524 - doe div 146096) div 365;
          doy = doe - (365 * yoe + yoe div 4 - yoe div 100);
          mp = (5 * doy + 2) div 153;
          d = doy - (153 * mp + 2) div 5 + 1;
          m = (if mp < 10 then mp + 3 else mp - 9)
      in (yoe + era * 400 + (if m \<le> 2 then 1 else 0), m, d))"

definition iso_text :: "int \<Rightarrow> string option" where
  "iso_text ms =
     (case civil (ms div 86400000) of
        (y, m, d) \<Rightarrow>
          if 0 \<le> y \<and> y \<le> 9999
          then (let r = nat (ms mod 86400000)
                in Some (pad 4 (nat y) @ ''-'' @ pad 2 (nat m) @ ''-'' @ pad 2 (nat d) @ ''T''
                     @ pad 2 (r div 3600000) @ '':'' @ pad 2 (r div 60000 mod 60) @ '':''
                     @ pad 2 (r div 1000 mod 60) @ ''.'' @ pad 3 (r mod 1000) @ ''Z''))
          else None)"

definition hex_digit :: "nat \<Rightarrow> char" where
  "hex_digit n = ''0123456789abcdef'' ! n"

definition escape :: "char \<Rightarrow> string" where
  "escape c =
     (let n = (of_char c :: nat)
      in if n = 34 then [CHR 0x5C, CHR 0x22]
         else if n = 92 then [CHR 0x5C, CHR 0x5C]
         else if n = 8 then [CHR 0x5C, CHR ''b'']
         else if n = 9 then [CHR 0x5C, CHR ''t'']
         else if n = 10 then [CHR 0x5C, CHR ''n'']
         else if n = 12 then [CHR 0x5C, CHR ''f'']
         else if n = 13 then [CHR 0x5C, CHR ''r'']
         else if n < 32 then [CHR 0x5C, CHR ''u'', CHR ''0'', CHR ''0'',
                              hex_digit (n div 16), hex_digit (n mod 16)]
         else [c])"

definition quote :: "string \<Rightarrow> string" where
  "quote s = [CHR 0x22] @ concat (map escape s) @ [CHR 0x22]"

fun commas :: "string list \<Rightarrow> string" where
  "commas [] = []"
| "commas [x] = x"
| "commas (x # y # ys) = x @ '','' @ commas (y # ys)"

definition num_text :: "jsnum \<Rightarrow> string" where
  "num_text n =
     (case n of
        Finite q \<Rightarrow>
          if of_int \<lfloor>q\<rfloor> = q \<and> \<bar>\<lfloor>q\<rfloor>\<bar> < 9007199254740992
          then (if q < 0 then ''-'' else []) @ show_nat (nat \<bar>\<lfloor>q\<rfloor>\<bar>)
          else ''null''
      | _ \<Rightarrow> ''null'')"

fun node_stringify :: "jv \<Rightarrow> string" where
  "node_stringify JNull = ''null''"
| "node_stringify (JBool b) = (if b then ''true'' else ''false'')"
| "node_stringify (JNum n) = num_text n"
| "node_stringify (JStr s) = quote s"
| "node_stringify (JOid h) = quote h"
| "node_stringify (JDate t) =
     (case t of
        None \<Rightarrow> ''null''
      | Some ms \<Rightarrow> (case iso_text ms of None \<Rightarrow> ''null'' | Some s \<Rightarrow> quote s))"
| "node_stringify (JArr xs) = ''['' @ commas (map node_stringify xs) @ '']''"
| "node_stringify (JObj kvs) =
     ''{'' @ commas (map (\<lambda>kv. quote (fst kv) @ '':'' @ node_stringify (snd kv)) kvs) @ ''}''"

definition node_parse :: "string \<Rightarrow> jv option" where
  "node_parse s = (if s = ''[]'' then Some (JArr []) else None)"

definition node_rt :: runtime where
  "node_rt = \<lparr> new_ObjectId = node_ObjectId, new_Date = node_Date, Number = node_Number,
     JSON_stringify = node_stringify, JSON_parse = node_parse \<rparr>"

section \<open>What the claims speak of\<close>

text \<open>
  The keys that a filter document can carry, in the order of the assignments, and the
  parameters that ask for each: a parameter is present when its guard holds, and the two
  price bounds share the key \<^verbatim>\<open>price\<close>.
\<close>

definition filter_keys :: "string list" where
  "filter_keys = [''typeId'', ''stateId'', ''cityId'', ''title'', ''availableFrom'', ''price'',
     ''bedrooms'', ''bathrooms'', ''rating'', ''listingType'', ''furnished'', ''amenityIds'',
     ''tagIds'']"

definition constrained :: "query_params \<Rightarrow> string \<Rightarrow> bool" where
  "constrained q k =
     (k = ''typeId'' \<and> truthy (typeId q) \<or>
      k = ''stateId'' \<and> truthy (stateId q) \<or>
      k = ''cityId'' \<and> truthy (cityId q) \<or>
      k = ''title'' \<and> truthy (title q) \<or>
      k = ''availableFrom'' \<and> truthy (availableFrom q) \<or>
      k = ''price'' \<and> (truthy (minPrice q) \<or> truthy (maxPrice q)) \<or>
      k = ''bedrooms'' \<and> truthy (minBedrooms q) \<or>
      k = ''bathrooms'' \<and> truthy (minBathrooms q) \<or>
      k = ''rating'' \<and> truthy (minRating q) \<or>
      k = ''listingType'' \<and> truthy (listingType q) \<or>
      k = ''furnished'' \<and> truthy (furnished q) \<or>
      k = ''amenityIds'' \<and> truthy (amenityIds q) \<or>
      k = ''tagIds'' \<and> truthy (tagIds q))"

definition key_if :: "bool \<Rightarrow> string \<Rightarrow> string list" where
  "key_if b k = (if b then [k] else [])"


text \<open>
  The values that \<open>buildFilter\<close> hands to \<^verbatim>\<open>new ObjectId\<close>: the three identifier parameters
  and the entries of the two identifier lists.
\<close>

definition id_arg :: "qparam option \<Rightarrow> jv list" where
  "id_arg p = (case p of None \<Rightarrow> [] | Some v \<Rightarrow> if truthy p then [qv v] else [])"

definition id_list_args :: "qparam option \<Rightarrow> jv list" where
  "id_list_args p =
     (case p of
        None \<Rightarrow> []
      | Some (QStr s) \<Rightarrow> if truthy p then [JStr s] else []
      | Some (QArr xs) \<Rightarrow> map JStr xs)"

definition id_args :: "query_params \<Rightarrow> jv list" where
  "id_args q =
     id_arg (typeId q) @ id_arg (stateId q) @ id_arg (cityId q)
     @ id_list_args (amenityIds q) @ id_list_args (tagIds q)"

definition example_query :: query_params where
  "example_query = empty_query\<lparr> minPrice := Some (QStr ''1000''),
     maxPrice := Some (QStr ''2000''), minBedrooms := Some (QStr ''2'') \<rparr>"


text \<open>A query and the filter it builds, used to exercise the theorems about the filter.\<close>

definition witness_query :: query_params where
  "witness_query = empty_query\<lparr> typeId := Some (QStr ''64b7f0c2a1d3e4f5a6b7c8d9''),
     title := Some (QStr ''Loft''), minPrice := Some (QStr ''1000''),
     amenityIds := Some (QStr ''64b7f0c2a1d3e4f5a6b7c8da'') \<rparr>"

definition witness_filter :: doc where
  "witness_filter =
     [(''typeId'', JOid ''64b7f0c2a1d3e4f5a6b7c8d9''),
      (''title'', JObj [(''$regex'', JStr ''Loft''), (''$options'', JStr ''i'')]),
      (''price'', JObj [(''$gte'', JNum (Finite 1000))]),
      (''amenityIds'', JObj [(''$all'', JArr [JOid ''64b7f0c2a1d3e4f5a6b7c8da''])])]"

section \<open>The seven cache-aside reads\<close>

text \<open>
  The reads behind the routes, and for each of them what the handler derives from the
  request: the filter it would query with (none when an identifier is refused), the cache
  key, the key of the payload in the response, the TTL, and the value that the persistence
  store returns for it.
\<close>

datatype read = Search | Mine | Cities | States | PropertyTypes | PropertyTags | Amenities

definition run_read :: "runtime \<Rightarrow> config \<Rightarrow> request \<Rightarrow> read \<Rightarrow> state \<Rightarrow> outcome \<times> state" where
  "run_read rt cfg req r st =
     (case r of
        Search \<Rightarrow> getProperties rt cfg req st
      | Mine \<Rightarrow> getMyProperties rt cfg req st
      | Cities \<Rightarrow> getCity rt cfg st
      | States \<Rightarrow> getState rt cfg st
      | PropertyTypes \<Rightarrow> getPropertyType rt cfg st
      | PropertyTags \<Rightarrow> getPropertyTag rt cfg st
      | Amenities \<Rightarrow> getAmenity rt cfg st)"

definition read_filter :: "runtime \<Rightarrow> request \<Rightarrow> read \<Rightarrow> doc option" where
  "read_filter rt req r =
     (case r of
        Search \<Rightarrow> (case buildFilter rt (req_query req) of Inl e \<Rightarrow> None | Inr f \<Rightarrow> Some f)
      | Mine \<Rightarrow>
          (case new_ObjectId rt (user_jv (req_user_id req)) of
             None \<Rightarrow> None
           | Some u \<Rightarrow> Some [(''listerId'', JOid u)])
      | _ \<Rightarrow> Some [])"

definition read_key :: "runtime \<Rightarrow> request \<Rightarrow> read \<Rightarrow> doc \<Rightarrow> string" where
  "read_key rt req r f =
     (case r of
        Search \<Rightarrow> ''properties:'' @ JSON_stringify rt (JObj f)
      | Mine \<Rightarrow> ''myProperties:'' @ user_text (req_user_id req)
      | Cities \<Rightarrow> ''cities''
      | States \<Rightarrow> ''states''
      | PropertyTypes \<Rightarrow> ''propertyTypes''
      | PropertyTags \<Rightarrow> ''propertyTags''
      | Amenities \<Rightarrow> ''amenities'')"

definition read_field :: "read \<Rightarrow> string" where
  "read_field r =
     (case r of
        Search \<Rightarrow> ''properties''
      | Mine \<Rightarrow> ''properties''
      | Cities \<Rightarrow> ''cities''
      | States \<Rightarrow> ''states''
      | PropertyTypes \<Rightarrow> ''propertyTypes''
      | PropertyTags \<Rightarrow> ''propertyTags''
      | Amenities \<Rightarrow> ''amenities'')"

definition read_ttl :: "config \<Rightarrow> read \<Rightarrow> nat" where
  "read_ttl cfg r =
     (case r of
        Search \<Rightarrow> PROPERTY_CACHE_TTL cfg
      | Mine \<Rightarrow> PROPERTY_CACHE_TTL cfg
      | _ \<Rightarrow> CACHE_TTL cfg)"

definition fresh :: "read \<Rightarrow> doc \<Rightarrow> persistence \<Rightarrow> jv" where
  "fresh r f db =
     (case r of
        Search \<Rightarrow> q_find f (properties db)
      | Mine \<Rightarrow> q_find f (properties db)
      | Cities \<Rightarrow> JArr (cities db)
      | States \<Rightarrow> JArr (states db)
      | PropertyTypes \<Rightarrow> JArr (propertyTypes db)
      | PropertyTags \<Rightarrow> JArr (propertyTags db)
      | Amenities \<Rightarrow> JArr (amenities db))"


section \<open>Example states and requests\<close>

text \<open>
  Two listers, a store with one property of the first lister and empty caches
  (\<open>cold_state\<close>), and the same state with the text of the empty list cached under
  \<^verbatim>\<open>cities\<close> (\<open>warm_state\<close>).
\<close>

definition alice :: string where
  "alice = ''64b7f0c2a1d3e4f5a6b7c8a1''"

definition bob :: string where
  "bob = ''64b7f0c2a1d3e4f5a6b7c8b2''"

definition flat_id :: string where
  "flat_id = ''64b7f0c2a1d3e4f5a6b7c8f3''"

definition flat :: doc where
  "flat = [(''_id'', JOid flat_id), (''title'', JStr ''Loft''), (''price'', JNum (Finite 1500)),
           (''listerId'', JOid alice), (''isVerified'', JBool False)]"

definition example_config :: config where
  "example_config = \<lparr> CACHE_TTL = 3600, PROPERTY_CACHE_TTL = 60 \<rparr>"

definition cold_state :: state where
  "cold_state = \<lparr> cache = (\<lambda>k. None),
     store = \<lparr> properties = [flat], cities = [JObj [(''name'', JStr ''Pune'')]], states = [],
               propertyTypes = [], propertyTags = [], amenities = [] \<rparr>,
     calls = [], clock = 1704067200123 \<rparr>"

definition warm_state :: state where
  "warm_state = cold_state\<lparr> cache := (cache cold_state)(''cities'' \<mapsto> (1704067300000, ''[]'')) \<rparr>"

definition example_request :: request where
  "example_request = \<lparr> req_query = empty_query, req_body = [(''title'', JStr ''Studio'')],
     req_params_id = flat_id, req_user_id = UserOid alice \<rparr>"

text \<open>
  A state in which the search without parameters and the list of the first lister are both
  cached, as two reads at time 1704067200000 leave them when the store is still empty.
\<close>

definition cached_state :: state where
  "cached_state = cold_state\<lparr> cache :=
     (cache cold_state)(''properties:{}'' \<mapsto> (1704067260000, ''[]''),
                        ''myProperties:'' @ alice \<mapsto> (1704067260000, ''[]'')) \<rparr>"

definition updated_flat :: doc where
  "updated_flat = [(''_id'', JOid flat_id), (''title'', JStr ''Studio''),
     (''price'', JNum (Finite 1500)), (''listerId'', JOid alice), (''isVerified'', JBool False)]"



section \<open>Ownership and identifier lists\<close>

text \<open>
  A stored property carries the identifier of a request when its \<^verbatim>\<open>_id\<close> is that text or the
  \<^verbatim>\<open>ObjectId\<close> read from it; it is owned by a caller when its \<^verbatim>\<open>listerId\<close> is the \<^verbatim>\<open>ObjectId\<close>
  of the caller.
\<close>

definition has_ident :: "runtime \<Rightarrow> string \<Rightarrow> doc \<Rightarrow> bool" where
  "has_ident rt pid d =
     (map_of d ''_id'' = Some (JStr pid)
      \<or> (case new_ObjectId rt (JStr pid) of
            None \<Rightarrow> False
          | Some p \<Rightarrow> map_of d ''_id'' = Some (JOid p)))"

definition owned_by :: "runtime \<Rightarrow> userid \<Rightarrow> doc \<Rightarrow> bool" where
  "owned_by rt caller d =
     (case new_ObjectId rt (user_jv caller) of
        None \<Rightarrow> False
      | Some u \<Rightarrow> map_of d ''listerId'' = Some (JOid u))"

text \<open>
  The list that an identifier-list parameter stands for: a non-empty string is the list of
  that one string, an array is itself, and an absent or empty parameter is no list. An entry
  of the list is parsed when \<^verbatim>\<open>new ObjectId\<close> accepts it and returns the identifier.
\<close>

definition id_list :: "qparam option \<Rightarrow> string list option" where
  "id_list p =
     (case p of
        None \<Rightarrow> None
      | Some (QStr s) \<Rightarrow> if s = [] then None else Some [s]
      | Some (QArr xs) \<Rightarrow> Some xs)"

definition parsed :: "runtime \<Rightarrow> string \<Rightarrow> jv \<Rightarrow> bool" where
  "parsed rt x h = (case new_ObjectId rt (JStr x) of None \<Rightarrow> False | Some y \<Rightarrow> h = JOid y)"

text \<open>
  The filter as the spec words it, key by key. A parameter is given when it is there and is
  not the empty text; \<open>given\<close> is then its value. Identifier parameters become the parsed
  identifier; \<^verbatim>\<open>title\<close> a case-insensitive match on its text; \<^verbatim>\<open>availableFrom\<close> an upper
  bound at the date read from it; the two price parameters the lower and the upper bound of
  one \<^verbatim>\<open>price\<close> entry; the three minima lower bounds at the number read from them;
  \<^verbatim>\<open>listingType\<close> and \<^verbatim>\<open>furnished\<close> their value itself; the two identifier lists the list of
  their parsed entries under \<^verbatim>\<open>$all\<close>. Every other key, and the key of a parameter that is
  not given, has no entry.
\<close>

definition given :: "qparam option \<Rightarrow> jv option" where
  "given p =
     (case p of
        None \<Rightarrow> None
      | Some (QStr s) \<Rightarrow> if s = [] then None else Some (JStr s)
      | Some (QArr xs) \<Rightarrow> Some (JArr (map JStr xs)))"

definition spec_ident :: "runtime \<Rightarrow> qparam option \<Rightarrow> jv option" where
  "spec_ident rt p = Option.bind (given p) (\<lambda>v. map_option JOid (new_ObjectId rt v))"

definition spec_lower :: "runtime \<Rightarrow> qparam option \<Rightarrow> jv option" where
  "spec_lower rt p = map_option (\<lambda>v. JObj [(''$gte'', JNum (Number rt v))]) (given p)"

definition spec_bound :: "runtime \<Rightarrow> string \<Rightarrow> qparam option \<Rightarrow> doc" where
  "spec_bound rt opr p = (case given p of None \<Rightarrow> [] | Some v \<Rightarrow> [(opr, JNum (Number rt v))])"

definition spec_all :: "runtime \<Rightarrow> qparam option \<Rightarrow> jv option" where
  "spec_all rt p =
     Option.bind (id_list p) (\<lambda>xs.
       map_option (\<lambda>hs. JObj [(''$all'', JArr hs)])
         (List.those (map (\<lambda>x. map_option JOid (new_ObjectId rt (JStr x))) xs)))"

definition spec_filter :: "runtime \<Rightarrow> query_params \<Rightarrow> string \<Rightarrow> jv option" where
  "spec_filter rt q k =
     (if k = ''typeId'' then spec_ident rt (typeId q)
      else if k = ''stateId'' then spec_ident rt (stateId q)
      else if k = ''cityId'' then spec_ident rt (cityId q)
      else if k = ''title'' then
        map_option (\<lambda>v. JObj [(''$regex'', v), (''$options'', JStr ''i'')]) (given (title q))
      else if k = ''availableFrom'' then
        map_option (\<lambda>v. JObj [(''$lte'', JDate (new_Date rt v))]) (given (availableFrom q))
      else if k = ''price'' then
        (if given (minPrice q) = None \<and> given (maxPrice q) = None then None
         else Some (JObj (spec_bound rt ''$gte'' (minPrice q) @ spec_bound rt ''$lte'' (maxPrice q))))
      else if k = ''bedrooms'' then spec_lower rt (minBedrooms q)
      else if k = ''bathrooms'' then spec_lower rt (minBathrooms q)
      else if k = ''rating'' then spec_lower rt (minRating q)
      else if k = ''listingType'' then given (listingType q)
      else if k = ''furnished'' then given (furnished q)
      else if k = ''amenityIds'' then spec_all rt (amenityIds q)
      else if k = ''tagIds'' then spec_all rt (tagIds q)
      else None)"


section \<open>Further example requests and documents\<close>

text \<open>
  The second lister asks for the property of the first (\<open>foreign_request\<close>); \<open>empty_state\<close>
  holds no property at all.
\<close>

definition foreign_request :: request where
  "foreign_request = example_request\<lparr> req_user_id := UserOid bob \<rparr>"

definition empty_state :: state where
  "empty_state = cold_state\<lparr> store := (store cold_state)\<lparr> properties := [] \<rparr> \<rparr>"

definition update_404 :: outcome where
  "update_404 = Response 404
     [(''message'', JStr ''Property not found or you don't have permission to update it'')]"

definition delete_404 :: outcome where
  "delete_404 = Response 404
     [(''message'', JStr ''Property not found or you don't have permission to delete it'')]"

text \<open>
  The first lister updates the flat with a body that sets \<^verbatim>\<open>isVerified\<close> and \<^verbatim>\<open>listerId\<close>
  (\<open>takeover_request\<close>), and asks for a property under an identifier that is no \<^verbatim>\<open>ObjectId\<close>
  (\<open>malformed_request\<close>).
\<close>

definition takeover_request :: request where
  "takeover_request = example_request\<lparr> req_body :=
     [(''isVerified'', JBool True), (''listerId'', JOid bob)] \<rparr>"

definition taken_flat :: doc where
  "taken_flat = [(''_id'', JOid flat_id), (''title'', JStr ''Loft''),
     (''price'', JNum (Finite 1500)), (''listerId'', JOid bob), (''isVerified'', JBool True)]"

definition malformed_request :: request where
  "malformed_request = example_request\<lparr> req_params_id := ''42'' \<rparr>"

text \<open>
  The property that the first lister creates at time 1704067200123 with the body of
  \<open>example_request\<close>.
\<close>

definition created_studio :: doc where
  "created_studio = [(''title'', JStr ''Studio''), (''id'', JStr ''1704067200123''),
     (''listerId'', JOid alice), (''isVerified'', JBool False)]"

text \<open>
  A search whose \<^verbatim>\<open>availableFrom\<close> is no date, and searches for one and for two amenities.
\<close>

definition undated_request :: request where
  "undated_request = example_request\<lparr> req_query :=
     empty_query\<lparr> availableFrom := Some (QStr ''not-a-date'') \<rparr> \<rparr>"

definition wifi :: string where
  "wifi = ''64b7f0c2a1d3e4f5a6b7c8e1''"

definition pool :: string where
  "pool = ''64b7f0c2a1d3e4f5a6b7c8e2''"

definition undated_filter :: doc where
  "undated_filter = [(''availableFrom'', JObj [(''$lte'', JDate None)])]"

definition undated_key :: string where
  "undated_key = ''properties:'' @ node_stringify (JObj undated_filter)"

definition one_amenity :: query_params where
  "one_amenity = empty_query\<lparr> amenityIds := Some (QStr wifi) \<rparr>"

definition two_amenities :: query_params where
  "two_amenities = empty_query\<lparr> amenityIds := Some (QArr [wifi, pool]) \<rparr>"

definition wifi_only :: doc where
  "wifi_only = [(''_id'', JOid flat_id), (''amenityIds'', JArr [JOid wifi])]"

definition one_amenity_filter :: doc where
  "one_amenity_filter = [(''amenityIds'', JObj [(''$all'', JArr [JOid wifi])])]"

definition two_amenities_filter :: doc where
  "two_amenities_filter = [(''amenityIds'', JObj [(''$all'', JArr [JOid wifi, JOid pool])])]"


section \<open>Evaluation lemmas\<close>

lemmas node_defs = node_rt_def node_ObjectId_def node_Number_def node_Date_def is_hex_def
  is_digit_def lower_def read_nat_def

lemma show_nat_small: "n < 10 \<Longrightarrow> show_nat n = [''0123456789'' ! n]"
  by (subst show_nat.simps) simp

lemma show_nat_big:
  "\<not> n < 10 \<Longrightarrow> show_nat n = show_nat (n div 10) @ [''0123456789'' ! (n mod 10)]"
  by (subst show_nat.simps) simp

lemmas field_defs = oid_field_def all_field_def processedIds_def regex_field_def
  date_field_def price_field_def num_bound_def min_field_def raw_field_def

section \<open>The filter builder\<close>

lemma oid_field_keys: "oid_field rt k p = Inr f \<Longrightarrow> map fst f = key_if (truthy p) k"
  by (auto simp: oid_field_def key_if_def split: option.splits if_splits)

lemma regex_field_keys: "map fst (regex_field k p) = key_if (truthy p) k"
  by (auto simp: regex_field_def key_if_def split: option.splits)

lemma date_field_keys: "map fst (date_field rt k p) = key_if (truthy p) k"
  by (auto simp: date_field_def key_if_def split: option.splits)

lemma price_field_keys: "map fst (price_field rt lo hi) = key_if (truthy lo \<or> truthy hi) ''price''"
  by (auto simp: price_field_def key_if_def)

lemma min_field_keys: "map fst (min_field rt k p) = key_if (truthy p) k"
  by (auto simp: min_field_def key_if_def split: option.splits)

lemma raw_field_keys: "map fst (raw_field k p) = key_if (truthy p) k"
  by (auto simp: raw_field_def key_if_def split: option.splits)

lemma truthy_processedIds: "truthy (processedIds p) = truthy p"
  by (cases p rule: truthy.cases) (auto simp: processedIds_def)

lemma all_field_keys:
  "all_field rt k (processedIds p) = Inr f \<Longrightarrow> map fst f = key_if (truthy p) k"
  by (cases p rule: truthy.cases)
     (auto simp: all_field_def processedIds_def key_if_def split: sum.splits if_splits)

lemma filter_key_if: "filter P (k # ks) = key_if (P k) k @ filter P ks"
  by (simp add: key_if_def)

lemma buildFilter_Inr:
  assumes "buildFilter rt q = Inr f"
  obtains f1 f2 f3 f12 f13 where
    "oid_field rt ''typeId'' (typeId q) = Inr f1"
    "oid_field rt ''stateId'' (stateId q) = Inr f2"
    "oid_field rt ''cityId'' (cityId q) = Inr f3"
    "all_field rt ''amenityIds'' (processedIds (amenityIds q)) = Inr f12"
    "all_field rt ''tagIds'' (processedIds (tagIds q)) = Inr f13"
    "f = f1 @ f2 @ f3
            @ regex_field ''title'' (title q)
            @ date_field rt ''availableFrom'' (availableFrom q)
            @ price_field rt (minPrice q) (maxPrice q)
            @ min_field rt ''bedrooms'' (minBedrooms q)
            @ min_field rt ''bathrooms'' (minBathrooms q)
            @ min_field rt ''rating'' (minRating q)
            @ raw_field ''listingType'' (listingType q)
            @ raw_field ''furnished'' (furnished q)
            @ f12 @ f13"
  using assms unfolding buildFilter_def ebind_def
  by (auto split: sum.splits)

lemma constrained_simps:
  "constrained q ''typeId'' = truthy (typeId q)"
  "constrained q ''stateId'' = truthy (stateId q)"
  "constrained q ''cityId'' = truthy (cityId q)"
  "constrained q ''title'' = truthy (title q)"
  "constrained q ''availableFrom'' = truthy (availableFrom q)"
  "constrained q ''price'' = (truthy (minPrice q) \<or> truthy (maxPrice q))"
  "constrained q ''bedrooms'' = truthy (minBedrooms q)"
  "constrained q ''bathrooms'' = truthy (minBathrooms q)"
  "constrained q ''rating'' = truthy (minRating q)"
  "constrained q ''listingType'' = truthy (listingType q)"
  "constrained q ''furnished'' = truthy (furnished q)"
  "constrained q ''amenityIds'' = truthy (amenityIds q)"
  "constrained q ''tagIds'' = truthy (tagIds q)"
  by (simp_all add: constrained_def)

lemma buildFilter_keys:
  assumes "buildFilter rt q = Inr f"
  shows "map fst f = filter (constrained q) filter_keys"
proof -
  from assms obtain f1 f2 f3 f12 f13 where
    h: "oid_field rt ''typeId'' (typeId q) = Inr f1"
    "oid_field rt ''stateId'' (stateId q) = Inr f2"
    "oid_field rt ''cityId'' (cityId q) = Inr f3"
    "all_field rt ''amenityIds'' (processedIds (amenityIds q)) = Inr f12"
    "all_field rt ''tagIds'' (processedIds (tagIds q)) = Inr f13"
    and f: "f = f1 @ f2 @ f3
            @ regex_field ''title'' (title q)
            @ date_field rt ''availableFrom'' (availableFrom q)
            @ price_field rt (minPrice q) (maxPrice q)
            @ min_field rt ''bedrooms'' (minBedrooms q)
            @ min_field rt ''bathrooms'' (minBathrooms q)
            @ min_field rt ''rating'' (minRating q)
            @ raw_field ''listingType'' (listingType q)
            @ raw_field ''furnished'' (furnished q)
            @ f12 @ f13"
    by (rule buildFilter_Inr)
  have rhs: "filter (constrained q) filter_keys =
      key_if (truthy (typeId q)) ''typeId'' @ key_if (truthy (stateId q)) ''stateId''
      @ key_if (truthy (cityId q)) ''cityId'' @ key_if (truthy (title q)) ''title''
      @ key_if (truthy (availableFrom q)) ''availableFrom''
      @ key_if (truthy (minPrice q) \<or> truthy (maxPrice q)) ''price''
      @ key_if (truthy (minBedrooms q)) ''bedrooms''
      @ key_if (truthy (minBathrooms q)) ''bathrooms''
      @ key_if (truthy (minRating q)) ''rating''
      @ key_if (truthy (listingType q)) ''listingType''
      @ key_if (truthy (furnished q)) ''furnished''
      @ key_if (truthy (amenityIds q)) ''amenityIds''
      @ key_if (truthy (tagIds q)) ''tagIds''"
    unfolding filter_keys_def
    by (simp only: filter_key_if constrained_simps filter.simps append_Nil2)
  show ?thesis
    unfolding rhs f
    by (simp only: map_append oid_field_keys[OF h(1)] oid_field_keys[OF h(2)]
        oid_field_keys[OF h(3)] all_field_keys[OF h(4)] all_field_keys[OF h(5)]
        regex_field_keys date_field_keys price_field_keys min_field_keys raw_field_keys)
qed


lemma num_bound_keys: "map fst (num_bound rt opr p) = key_if (truthy p) opr"
  by (auto simp: num_bound_def key_if_def split: option.splits)

lemma map_of_skip: "k \<notin> set (map fst xs) \<Longrightarrow> map_of (xs @ ys) k = map_of ys k"
  by (induction xs) auto

lemma key_if_notin: "k \<noteq> k' \<Longrightarrow> k \<notin> set (key_if b k')"
  by (simp add: key_if_def)

lemma buildFilter_price:
  assumes "buildFilter rt q = Inr f" and "truthy (minPrice q) \<or> truthy (maxPrice q)"
  shows "map_of f ''price'' =
           Some (JObj (num_bound rt ''$gte'' (minPrice q) @ num_bound rt ''$lte'' (maxPrice q)))"
proof -
  from assms(1) obtain f1 f2 f3 f12 f13 where
    h: "oid_field rt ''typeId'' (typeId q) = Inr f1"
    "oid_field rt ''stateId'' (stateId q) = Inr f2"
    "oid_field rt ''cityId'' (cityId q) = Inr f3"
    "all_field rt ''amenityIds'' (processedIds (amenityIds q)) = Inr f12"
    "all_field rt ''tagIds'' (processedIds (tagIds q)) = Inr f13"
    and f: "f = f1 @ f2 @ f3
            @ regex_field ''title'' (title q)
            @ date_field rt ''availableFrom'' (availableFrom q)
            @ price_field rt (minPrice q) (maxPrice q)
            @ min_field rt ''bedrooms'' (minBedrooms q)
            @ min_field rt ''bathrooms'' (minBathrooms q)
            @ min_field rt ''rating'' (minRating q)
            @ raw_field ''listingType'' (listingType q)
            @ raw_field ''furnished'' (furnished q)
            @ f12 @ f13"
    by (rule buildFilter_Inr)
  have n1: "''price'' \<notin> set (map fst f1)"
    by (simp only: oid_field_keys[OF h(1)]) (rule key_if_notin, simp)
  have n2: "''price'' \<notin> set (map fst f2)"
    by (simp only: oid_field_keys[OF h(2)]) (rule key_if_notin, simp)
  have n3: "''price'' \<notin> set (map fst f3)"
    by (simp only: oid_field_keys[OF h(3)]) (rule key_if_notin, simp)
  have n4: "''price'' \<notin> set (map fst (regex_field ''title'' (title q)))"
    by (simp only: regex_field_keys) (rule key_if_notin, simp)
  have n5: "''price'' \<notin> set (map fst (date_field rt ''availableFrom'' (availableFrom q)))"
    by (simp only: date_field_keys) (rule key_if_notin, simp)
  have "map_of f ''price'' = map_of (price_field rt (minPrice q) (maxPrice q)
            @ min_field rt ''bedrooms'' (minBedrooms q)
            @ min_field rt ''bathrooms'' (minBathrooms q)
            @ min_field rt ''rating'' (minRating q)
            @ raw_field ''listingType'' (listingType q)
            @ raw_field ''furnished'' (furnished q)
            @ f12 @ f13) ''price''"
    unfolding f
    by (simp only: map_of_skip[OF n1] map_of_skip[OF n2] map_of_skip[OF n3]
        map_of_skip[OF n4] map_of_skip[OF n5])
  also have "\<dots> = Some (JObj (num_bound rt ''$gte'' (minPrice q) @ num_bound rt ''$lte'' (maxPrice q)))"
    using assms(2) by (simp add: price_field_def)
  finally show ?thesis .
qed

lemma map_ObjectId_total:
  "list_all (\<lambda>v. new_ObjectId rt v \<noteq> None) (map JStr xs) \<Longrightarrow> \<exists>hs. map_ObjectId rt xs = Inr hs"
  by (induction xs) auto

lemma oid_field_total:
  "list_all (\<lambda>v. new_ObjectId rt v \<noteq> None) (id_arg p) \<Longrightarrow> \<exists>f. oid_field rt k p = Inr f"
  by (auto simp: oid_field_def id_arg_def split: option.splits)

lemma all_field_total:
  assumes "list_all (\<lambda>v. new_ObjectId rt v \<noteq> None) (id_list_args p)"
  shows "\<exists>f. all_field rt k (processedIds p) = Inr f"
proof (cases p rule: truthy.cases)
  case 1
  then show ?thesis by (simp add: all_field_def processedIds_def)
next
  case (2 s)
  then show ?thesis using assms
    by (auto simp: all_field_def processedIds_def id_list_args_def)
next
  case (3 xs)
  with assms obtain hs where "map_ObjectId rt xs = Inr hs"
    using map_ObjectId_total[of rt xs] by (auto simp: id_list_args_def)
  with 3 show ?thesis by (simp add: all_field_def processedIds_def)
qed

lemma buildFilter_total:
  assumes "list_all (\<lambda>v. new_ObjectId rt v \<noteq> None) (id_args q)"
  shows "\<exists>f. buildFilter rt q = Inr f"
proof -
  from assms obtain f1 f2 f3 f12 f13 where
    "oid_field rt ''typeId'' (typeId q) = Inr f1"
    "oid_field rt ''stateId'' (stateId q) = Inr f2"
    "oid_field rt ''cityId'' (cityId q) = Inr f3"
    "all_field rt ''amenityIds'' (processedIds (amenityIds q)) = Inr f12"
    "all_field rt ''tagIds'' (processedIds (tagIds q)) = Inr f13"
    unfolding id_args_def list_all_append
    using oid_field_total all_field_total by metis
  then show ?thesis by (simp add: buildFilter_def ebind_def)
qed

lemma buildFilter_example:
  "buildFilter rt example_query =
     Inr [(''price'', JObj [(''$gte'', JNum (Number rt (JStr ''1000''))),
                            (''$lte'', JNum (Number rt (JStr ''2000'')))]),
          (''bedrooms'', JObj [(''$gte'', JNum (Number rt (JStr ''2'')))])]"
  by (simp add: buildFilter_def ebind_def example_query_def empty_query_def oid_field_def
      all_field_def processedIds_def regex_field_def date_field_def price_field_def
      num_bound_def min_field_def raw_field_def)

lemma buildFilter_empty: "buildFilter rt empty_query = Inr []"
  by (simp add: buildFilter_def ebind_def empty_query_def oid_field_def
      all_field_def processedIds_def regex_field_def date_field_def price_field_def
      num_bound_def min_field_def raw_field_def)

lemma given_truthy: "given p = (case p of None \<Rightarrow> None | Some v \<Rightarrow> if truthy p then Some (qv v) else None)"
  by (cases p rule: truthy.cases) (simp_all add: given_def)

lemma oid_field_lookup:
  "oid_field rt k' p = Inr f \<Longrightarrow> map_of f k = (if k = k' then spec_ident rt p else None)"
  by (auto simp: oid_field_def spec_ident_def given_truthy split: option.splits if_splits)

lemma regex_field_lookup:
  "map_of (regex_field k' p) k =
     (if k = k' then map_option (\<lambda>v. JObj [(''$regex'', v), (''$options'', JStr ''i'')]) (given p)
      else None)"
  by (auto simp: regex_field_def given_truthy split: option.splits)

lemma date_field_lookup:
  "map_of (date_field rt k' p) k =
     (if k = k' then map_option (\<lambda>v. JObj [(''$lte'', JDate (new_Date rt v))]) (given p)
      else None)"
  by (auto simp: date_field_def given_truthy split: option.splits)

lemma num_bound_spec: "num_bound rt opr p = spec_bound rt opr p"
  by (auto simp: num_bound_def spec_bound_def given_truthy split: option.splits)

lemma truthy_given: "truthy p \<longleftrightarrow> given p \<noteq> None"
  by (cases p rule: truthy.cases) (simp_all add: given_def)

lemma price_field_lookup:
  "map_of (price_field rt lo hi) k =
     (if k = ''price'' then
        (if given lo = None \<and> given hi = None then None
         else Some (JObj (spec_bound rt ''$gte'' lo @ spec_bound rt ''$lte'' hi)))
      else None)"
  by (auto simp: price_field_def num_bound_spec truthy_given)

lemma min_field_lookup:
  "map_of (min_field rt k' p) k = (if k = k' then spec_lower rt p else None)"
  by (auto simp: min_field_def spec_lower_def given_truthy split: option.splits)

lemma raw_field_lookup:
  "map_of (raw_field k' p) k = (if k = k' then given p else None)"
  by (auto simp: raw_field_def given_truthy split: option.splits)

lemma map_ObjectId_those:
  "map_ObjectId rt xs = Inr hs \<Longrightarrow>
     List.those (map (\<lambda>x. map_option JOid (new_ObjectId rt (JStr x))) xs) = Some hs"
  by (induction xs arbitrary: hs) (auto split: option.splits sum.splits)

lemma all_field_lookup:
  assumes "all_field rt k' (processedIds p) = Inr f"
  shows "map_of f k = (if k = k' then spec_all rt p else None)"
proof (cases p rule: truthy.cases)
  case 1
  with assms show ?thesis by (simp add: all_field_def processedIds_def spec_all_def id_list_def)
next
  case (2 s)
  with assms show ?thesis
    by (auto simp: all_field_def processedIds_def spec_all_def id_list_def
        split: option.splits sum.splits if_splits)
next
  case (3 xs)
  with assms show ?thesis
    by (auto simp: all_field_def processedIds_def spec_all_def id_list_def map_ObjectId_those
        split: sum.splits)
qed

lemma map_of_append_first:
  "map_of (xs @ ys) k = (case map_of xs k of None \<Rightarrow> map_of ys k | Some v \<Rightarrow> Some v)"
  by (simp add: map_add_def)

lemma case_option_id: "(case x of None \<Rightarrow> None | Some v \<Rightarrow> Some v) = x"
  by (cases x) simp_all

lemma buildFilter_lookup:
  assumes "buildFilter rt q = Inr f"
  shows "map_of f k = spec_filter rt q k"
proof -
  from assms obtain f1 f2 f3 f12 f13 where
    h: "oid_field rt ''typeId'' (typeId q) = Inr f1"
    "oid_field rt ''stateId'' (stateId q) = Inr f2"
    "oid_field rt ''cityId'' (cityId q) = Inr f3"
    "all_field rt ''amenityIds'' (processedIds (amenityIds q)) = Inr f12"
    "all_field rt ''tagIds'' (processedIds (tagIds q)) = Inr f13"
    and f: "f = f1 @ f2 @ f3
            @ regex_field ''title'' (title q)
            @ date_field rt ''availableFrom'' (availableFrom q)
            @ price_field rt (minPrice q) (maxPrice q)
            @ min_field rt ''bedrooms'' (minBedrooms q)
            @ min_field rt ''bathrooms'' (minBathrooms q)
            @ min_field rt ''rating'' (minRating q)
            @ raw_field ''listingType'' (listingType q)
            @ raw_field ''furnished'' (furnished q)
            @ f12 @ f13"
    by (rule buildFilter_Inr)
  show ?thesis
    unfolding f spec_filter_def
    by (simp only: map_of_append_first oid_field_lookup[OF h(1)] oid_field_lookup[OF h(2)]
        oid_field_lookup[OF h(3)] all_field_lookup[OF h(4)] all_field_lookup[OF h(5)]
        regex_field_lookup date_field_lookup price_field_lookup min_field_lookup
        raw_field_lookup)
       (simp add: case_option_id map_option_case cong: option.case_cong)
qed

lemma buildFilter_keys_spec:
  assumes "buildFilter rt q = Inr f"
  shows "map fst f = filter (\<lambda>k. spec_filter rt q k \<noteq> None) filter_keys"
proof -
  have d: "distinct filter_keys"
    by (simp add: filter_keys_def)
  have k: "map fst f = filter (constrained q) filter_keys"
    by (rule buildFilter_keys[OF assms])
  have "constrained q k \<longleftrightarrow> spec_filter rt q k \<noteq> None" if "k \<in> set filter_keys" for k
  proof -
    have "constrained q k \<longleftrightarrow> k \<in> set (map fst f)"
      unfolding k using that by simp
    also have "\<dots> \<longleftrightarrow> map_of f k \<noteq> None"
      by (simp add: map_of_eq_None_iff)
    finally show ?thesis
      by (simp only: buildFilter_lookup[OF assms])
  qed
  then have "filter (constrained q) filter_keys
      = filter (\<lambda>k. spec_filter rt q k \<noteq> None) filter_keys"
    by (intro filter_cong refl)
  with k show ?thesis by simp
qed

text \<open>
  Claim C3. Whenever \<open>buildFilter\<close> returns a filter, the filter imposes exactly the
  constraints of the parameters given and no others: under every key it holds what the spec
  assigns to that key for the query (\<open>spec_filter\<close>: the parsed identifier, the
  case-insensitive match, the bound at the date or the number read from the parameter, the
  value itself, the parsed list under \<^verbatim>\<open>$all\<close>), and nothing under the key of a parameter that
  is not given or under any other key. Its keys are exactly the keys of the parameters whose
  guard holds, each once and in the order of the assignments; the entry \<^verbatim>\<open>price\<close> carries
  \<^verbatim>\<open>$gte\<close> exactly when \<^verbatim>\<open>minPrice\<close> is given and \<^verbatim>\<open>$lte\<close> exactly when \<^verbatim>\<open>maxPrice\<close> is given.
  A filter is returned whenever every identifier among the parameters is accepted by
  \<^verbatim>\<open>new ObjectId\<close>. The query with \<^verbatim>\<open>minPrice\<close> 1000, \<^verbatim>\<open>maxPrice\<close> 2000 and \<^verbatim>\<open>minBedrooms\<close> 2
  yields the filter with the two entries \<^verbatim>\<open>price\<close> and \<^verbatim>\<open>bedrooms\<close>, and the query without
  parameters yields the empty filter, which every document matches.
\<close>

theorem buildFilter_exact_constraints:
  "(buildFilter rt q = Inr f \<longrightarrow>
      map fst f = filter (constrained q) filter_keys
      \<and> map fst f = filter (\<lambda>k. spec_filter rt q k \<noteq> None) filter_keys
      \<and> (\<forall>k. map_of f k = spec_filter rt q k)
      \<and> (truthy (minPrice q) \<or> truthy (maxPrice q) \<longrightarrow>
           (\<exists>ops. map_of f ''price'' = Some (JObj ops)
              \<and> map fst ops = (if truthy (minPrice q) then [''$gte''] else [])
                             @ (if truthy (maxPrice q) then [''$lte''] else []))))
   \<and> (list_all (\<lambda>v. new_ObjectId rt v \<noteq> None) (id_args q) \<longrightarrow> (\<exists>g. buildFilter rt q = Inr g))
   \<and> buildFilter rt example_query =
       Inr [(''price'', JObj [(''$gte'', JNum (Number rt (JStr ''1000''))),
                              (''$lte'', JNum (Number rt (JStr ''2000'')))]),
            (''bedrooms'', JObj [(''$gte'', JNum (Number rt (JStr ''2'')))])]
   \<and> buildFilter rt empty_query = Inr []
   \<and> matches d []"
proof (intro conjI impI allI)
  assume b: "buildFilter rt q = Inr f"
  show "map fst f = filter (constrained q) filter_keys"
    using b by (rule buildFilter_keys)
  show "map fst f = filter (\<lambda>k. spec_filter rt q k \<noteq> None) filter_keys"
    using b by (rule buildFilter_keys_spec)
  show "map_of f k = spec_filter rt q k" for k
    using b by (rule buildFilter_lookup)
  assume t: "truthy (minPrice q) \<or> truthy (maxPrice q)"
  have "map fst (num_bound rt ''$gte'' (minPrice q) @ num_bound rt ''$lte'' (maxPrice q))
        = (if truthy (minPrice q) then [''$gte''] else [])
          @ (if truthy (maxPrice q) then [''$lte''] else [])"
    by (simp add: num_bound_keys key_if_def)
  with buildFilter_price[OF b t]
  show "\<exists>ops. map_of f ''price'' = Some (JObj ops)
              \<and> map fst ops = (if truthy (minPrice q) then [''$gte''] else [])
                             @ (if truthy (maxPrice q) then [''$lte''] else [])"
    by blast
next
  assume "list_all (\<lambda>v. new_ObjectId rt v \<noteq> None) (id_args q)"
  then show "\<exists>g. buildFilter rt q = Inr g"
    by (rule buildFilter_total)
next
  show "buildFilter rt example_query =
       Inr [(''price'', JObj [(''$gte'', JNum (Number rt (JStr ''1000''))),
                              (''$lte'', JNum (Number rt (JStr ''2000'')))]),
            (''bedrooms'', JObj [(''$gte'', JNum (Number rt (JStr ''2'')))])]"
    by (rule buildFilter_example)
next
  show "buildFilter rt empty_query = Inr []"
    by (rule buildFilter_empty)
next
  show "matches d []"
    by (simp add: matches_def)
qed

lemma witness_filter_built: "buildFilter node_rt witness_query = Inr witness_filter"
  by (simp add: buildFilter_def ebind_def witness_query_def witness_filter_def empty_query_def
      field_defs node_defs)

theorem buildFilter_exact_constraints_witness:
  "buildFilter node_rt witness_query = Inr witness_filter
   \<and> list_all (\<lambda>v. new_ObjectId node_rt v \<noteq> None) (id_args witness_query)
   \<and> map fst witness_filter = [''typeId'', ''title'', ''price'', ''amenityIds'']
   \<and> map fst witness_filter = filter (constrained witness_query) filter_keys
   \<and> map fst witness_filter = filter (\<lambda>k. spec_filter node_rt witness_query k \<noteq> None) filter_keys
   \<and> spec_filter node_rt witness_query ''typeId'' = Some (JOid ''64b7f0c2a1d3e4f5a6b7c8d9'')
   \<and> spec_filter node_rt witness_query ''title'' =
       Some (JObj [(''$regex'', JStr ''Loft''), (''$options'', JStr ''i'')])
   \<and> spec_filter node_rt witness_query ''price'' = Some (JObj [(''$gte'', JNum (Finite 1000))])
   \<and> spec_filter node_rt witness_query ''amenityIds'' =
       Some (JObj [(''$all'', JArr [JOid ''64b7f0c2a1d3e4f5a6b7c8da''])])
   \<and> spec_filter node_rt witness_query ''furnished'' = None
   \<and> truthy (minPrice witness_query)
   \<and> (\<exists>ops. map_of witness_filter ''price'' = Some (JObj ops) \<and> map fst ops = [''$gte''])
   \<and> buildFilter node_rt example_query =
       Inr [(''price'', JObj [(''$gte'', JNum (Finite 1000)), (''$lte'', JNum (Finite 2000))]),
            (''bedrooms'', JObj [(''$gte'', JNum (Finite 2))])]"
proof -
  have t: "truthy (minPrice witness_query)" "\<not> truthy (maxPrice witness_query)"
    by (simp_all add: witness_query_def empty_query_def)
  have i: "list_all (\<lambda>v. new_ObjectId node_rt v \<noteq> None) (id_args witness_query)"
    by (simp add: id_args_def id_arg_def id_list_args_def witness_query_def empty_query_def
        node_defs)
  have k: "map fst witness_filter = [''typeId'', ''title'', ''price'', ''amenityIds'']"
    by (simp add: witness_filter_def)
  have n: "Number node_rt (JStr ''1000'') = Finite 1000"
    "Number node_rt (JStr ''2000'') = Finite 2000" "Number node_rt (JStr ''2'') = Finite 2"
    by (simp_all add: node_defs)
  note inst = buildFilter_exact_constraints[of node_rt witness_query witness_filter]
  from inst witness_filter_built
  have a: "map fst witness_filter = filter (constrained witness_query) filter_keys"
    by blast
  from inst witness_filter_built
  have a': "map fst witness_filter =
      filter (\<lambda>k. spec_filter node_rt witness_query k \<noteq> None) filter_keys"
    by blast
  from inst witness_filter_built
  have l: "map_of witness_filter k = spec_filter node_rt witness_query k" for k
    by blast
  have s1: "spec_filter node_rt witness_query ''typeId'' = Some (JOid ''64b7f0c2a1d3e4f5a6b7c8d9'')"
    unfolding l[symmetric] by (simp add: witness_filter_def)
  have s2: "spec_filter node_rt witness_query ''title'' =
       Some (JObj [(''$regex'', JStr ''Loft''), (''$options'', JStr ''i'')])"
    unfolding l[symmetric] by (simp add: witness_filter_def)
  have s3: "spec_filter node_rt witness_query ''price'' = Some (JObj [(''$gte'', JNum (Finite 1000))])"
    unfolding l[symmetric] by (simp add: witness_filter_def)
  have s4: "spec_filter node_rt witness_query ''amenityIds'' =
       Some (JObj [(''$all'', JArr [JOid ''64b7f0c2a1d3e4f5a6b7c8da''])])"
    unfolding l[symmetric] by (simp add: witness_filter_def)
  have s5: "spec_filter node_rt witness_query ''furnished'' = None"
    unfolding l[symmetric] by (simp add: witness_filter_def)
  from inst witness_filter_built t(1)
  have "\<exists>ops. map_of witness_filter ''price'' = Some (JObj ops)
              \<and> map fst ops = (if truthy (minPrice witness_query) then [''$gte''] else [])
                             @ (if truthy (maxPrice witness_query) then [''$lte''] else [])"
    by blast
  with t have b: "\<exists>ops. map_of witness_filter ''price'' = Some (JObj ops) \<and> map fst ops = [''$gte'']"
    by simp
  have e: "buildFilter node_rt example_query =
       Inr [(''price'', JObj [(''$gte'', JNum (Finite 1000)), (''$lte'', JNum (Finite 2000))]),
            (''bedrooms'', JObj [(''$gte'', JNum (Finite 2))])]"
    using inst[THEN conjunct2, THEN conjunct2, THEN conjunct1] unfolding n .
  show ?thesis
    by (intro conjI) (rule witness_filter_built i k a a' s1 s2 s3 s4 s5 t(1) b e)+
qed


section \<open>The cache-aside reads\<close>

lemma cacheAside_hit:
  assumes "redis_get (clock st) (cache st) k = Some v" and "v \<noteq> []" and "JSON_parse rt v = Some j"
  shows "cacheAside rt k ttl hm mm fld q r st =
           (Response 200 [(''message'', JStr hm), (fld, j)], st\<lparr>calls := calls st @ [Redis_get k]\<rparr>)"
  using assms by (simp add: cacheAside_def Let_def)

lemma cacheAside_miss:
  assumes "redis_get (clock st) (cache st) k = None"
  shows "cacheAside rt k ttl hm mm fld q r st =
           (Response 200 [(''message'', JStr mm), (fld, r)],
            st\<lparr>cache := (cache st)(k \<mapsto> (clock st + ttl * 1000, JSON_stringify rt r)),
                calls := calls st @ [Redis_get k, q, Redis_setex k ttl (JSON_stringify rt r)]\<rparr>)"
  using assms by (simp add: cacheAside_def Let_def redis_setex_def)

lemmas read_defs = run_read_def read_filter_def read_key_def read_field_def read_ttl_def
  fresh_def getProperties_def getMyProperties_def getCity_def getState_def
  getPropertyType_def getPropertyTag_def getAmenity_def

lemma read_hit:
  assumes "read_filter rt req r = Some f"
    and "redis_get (clock st) (cache st) (read_key rt req r f) = Some v"
    and "v \<noteq> []" and "JSON_parse rt v = Some j"
  shows "\<exists>m. run_read rt cfg req r st =
           (Response 200 [(''message'', JStr m), (read_field r, j)],
            st\<lparr>calls := calls st @ [Redis_get (read_key rt req r f)]\<rparr>)"
  using assms
  by (cases r) (auto simp: read_defs cacheAside_hit split: sum.splits option.splits)

lemma read_miss:
  assumes "read_filter rt req r = Some f"
    and "redis_get (clock st) (cache st) (read_key rt req r f) = None"
  shows "\<exists>m name args. run_read rt cfg req r st =
           (Response 200 [(''message'', JStr m), (read_field r, fresh r f (store st))],
            st\<lparr>cache := (cache st)(read_key rt req r f \<mapsto>
                   (clock st + read_ttl cfg r * 1000, JSON_stringify rt (fresh r f (store st)))),
                calls := calls st @
                  [Redis_get (read_key rt req r f), Query name args,
                   Redis_setex (read_key rt req r f) (read_ttl cfg r)
                     (JSON_stringify rt (fresh r f (store st)))]\<rparr>)"
  using assms
  by (cases r) (auto simp: read_defs cacheAside_miss split: sum.splits option.splits)

text \<open>
  Claim C4. For each of the seven cache-aside reads whose key can be derived: when the key
  holds a live cached text (a serialized value: not empty, and read by \<^verbatim>\<open>JSON.parse\<close>), the
  handler answers 200 with the parsed value, its only call is the cache lookup, and both
  stores are as before; when the key is absent or expired, the handler makes the cache
  lookup, one query to the persistence store and one \<^verbatim>\<open>setex\<close> of the serialized result under
  the same key with the TTL of the resource, in this order and nothing else, and answers 200
  with the result just fetched.
\<close>

theorem cache_aside_read:
  assumes "read_filter rt req r = Some f" and "k = read_key rt req r f"
  shows "(\<forall>v j. redis_get (clock st) (cache st) k = Some v \<and> v \<noteq> [] \<and> JSON_parse rt v = Some j \<longrightarrow>
            (\<exists>m. run_read rt cfg req r st =
               (Response 200 [(''message'', JStr m), (read_field r, j)],
                st\<lparr>calls := calls st @ [Redis_get k]\<rparr>)))
       \<and> (redis_get (clock st) (cache st) k = None \<longrightarrow>
            (\<exists>m name args. run_read rt cfg req r st =
               (Response 200 [(''message'', JStr m), (read_field r, fresh r f (store st))],
                st\<lparr>cache := (cache st)(k \<mapsto>
                       (clock st + read_ttl cfg r * 1000, JSON_stringify rt (fresh r f (store st)))),
                    calls := calls st @
                      [Redis_get k, Query name args,
                       Redis_setex k (read_ttl cfg r) (JSON_stringify rt (fresh r f (store st)))]\<rparr>)))"
  unfolding assms(2)
proof (intro conjI allI impI)
  fix v j
  assume "redis_get (clock st) (cache st) (read_key rt req r f) = Some v \<and> v \<noteq> []
            \<and> JSON_parse rt v = Some j"
  then show "\<exists>m. run_read rt cfg req r st =
               (Response 200 [(''message'', JStr m), (read_field r, j)],
                st\<lparr>calls := calls st @ [Redis_get (read_key rt req r f)]\<rparr>)"
    using read_hit[OF assms(1)] by blast
next
  assume "redis_get (clock st) (cache st) (read_key rt req r f) = None"
  then show "\<exists>m name args. run_read rt cfg req r st =
               (Response 200 [(''message'', JStr m), (read_field r, fresh r f (store st))],
                st\<lparr>cache := (cache st)(read_key rt req r f \<mapsto>
                       (clock st + read_ttl cfg r * 1000, JSON_stringify rt (fresh r f (store st)))),
                    calls := calls st @
                      [Redis_get (read_key rt req r f), Query name args,
                       Redis_setex (read_key rt req r f) (read_ttl cfg r)
                         (JSON_stringify rt (fresh r f (store st)))]\<rparr>)"
    by (rule read_miss[OF assms(1)])
qed


theorem cache_aside_read_witness:
  "read_filter node_rt example_request Cities = Some []
   \<and> redis_get (clock warm_state) (cache warm_state) ''cities'' = Some ''[]''
   \<and> JSON_parse node_rt ''[]'' = Some (JArr [])
   \<and> (\<exists>m. run_read node_rt example_config example_request Cities warm_state =
          (Response 200 [(''message'', JStr m), (''cities'', JArr [])],
           warm_state\<lparr>calls := calls warm_state @ [Redis_get ''cities'']\<rparr>))
   \<and> redis_get (clock cold_state) (cache cold_state) ''cities'' = None
   \<and> (\<exists>m name args. run_read node_rt example_config example_request Cities cold_state =
          (Response 200 [(''message'', JStr m), (''cities'', JArr (cities (store cold_state)))],
           cold_state\<lparr>cache := (cache cold_state)(''cities'' \<mapsto>
                  (clock cold_state + 3600 * 1000,
                   JSON_stringify node_rt (JArr (cities (store cold_state))))),
               calls := calls cold_state @
                 [Redis_get ''cities'', Query name args,
                  Redis_setex ''cities'' 3600
                    (JSON_stringify node_rt (JArr (cities (store cold_state))))]\<rparr>))"
proof -
  have f: "read_filter node_rt example_request Cities = Some []"
    by (simp add: read_filter_def)
  have k: "''cities'' = read_key node_rt example_request Cities []"
    by (simp add: read_key_def)
  have h: "redis_get (clock warm_state) (cache warm_state) ''cities'' = Some ''[]''"
    by (simp add: redis_get_def warm_state_def cold_state_def)
  have p: "JSON_parse node_rt ''[]'' = Some (JArr [])"
    by (simp add: node_rt_def node_parse_def)
  have c: "redis_get (clock cold_state) (cache cold_state) ''cities'' = None"
    by (simp add: redis_get_def cold_state_def)
  have a: "read_field Cities = ''cities''" "read_ttl example_config Cities = 3600"
    "fresh Cities [] (store cold_state) = JArr (cities (store cold_state))"
    by (simp_all add: read_field_def read_ttl_def fresh_def example_config_def)
  from cache_aside_read[OF f k, of warm_state example_config] h p
  have hit: "\<exists>m. run_read node_rt example_config example_request Cities warm_state =
          (Response 200 [(''message'', JStr m), (''cities'', JArr [])],
           warm_state\<lparr>calls := calls warm_state @ [Redis_get ''cities'']\<rparr>)"
    unfolding a by blast
  from cache_aside_read[OF f k, of cold_state example_config] c
  have miss: "\<exists>m name args. run_read node_rt example_config example_request Cities cold_state =
          (Response 200 [(''message'', JStr m), (''cities'', JArr (cities (store cold_state)))],
           cold_state\<lparr>cache := (cache cold_state)(''cities'' \<mapsto>
                  (clock cold_state + 3600 * 1000,
                   JSON_stringify node_rt (JArr (cities (store cold_state))))),
               calls := calls cold_state @
                 [Redis_get ''cities'', Query name args,
                  Redis_setex ''cities'' 3600
                    (JSON_stringify node_rt (JArr (cities (store cold_state))))]\<rparr>)"
    unfolding a by blast
  from f h p hit c miss show ?thesis by blast
qed

section \<open>Invalidation\<close>

lemma glob_star: "glob_match ''*'' s"
  by (induction s) auto

lemma glob_search_key: "glob_match ''properties:*'' (''properties:'' @ k)"
  by (simp add: glob_star)

lemma glob_my_key: "\<not> glob_match ''properties:*'' (''myProperties:'' @ k)"
  by simp

lemma redis_get_del: "glob_match p k \<Longrightarrow> redis_get t (redis_del p c) k = None"
  by (simp add: redis_get_def redis_del_def)

lemma redis_get_del_None: "redis_get t c k = None \<Longrightarrow> redis_get t (redis_del p c) k = None"
  by (simp add: redis_get_def redis_del_def)

lemma postProperty_cache:
  "postProperty req st = (out, st') \<Longrightarrow> cache st' = redis_del ''properties:*'' (cache st)"
  by (auto simp: postProperty_def Let_def q_createProperty_def)

lemma deleteProperty_cache:
  "deleteProperty rt req st = (Response 200 b, st') \<Longrightarrow>
     cache st' = redis_del (''myProperties:'' @ user_text (req_user_id req))
                   (redis_del ''properties:*'' (cache st))"
  by (auto simp: deleteProperty_def Let_def split: option.splits prod.splits)

lemma updateProperty_cache:
  "updateProperty rt req st = (Response 200 b, st') \<Longrightarrow>
     cache st' = redis_del (''myProperties:'' @ user_text (req_user_id req))
                   (redis_del ''properties:*'' (cache st))"
  by (auto simp: updateProperty_def Let_def split: option.splits prod.splits)

lemma search_keys_gone:
  assumes "postProperty req st = (Response 201 b, st')
         \<or> deleteProperty rt req st = (Response 200 b, st')
         \<or> updateProperty rt req st = (Response 200 b, st')"
  shows "redis_get t (cache st') (''properties:'' @ k) = None"
proof -
  have gone: "redis_get t (redis_del ''properties:*'' (cache st)) (''properties:'' @ k) = None"
    by (rule redis_get_del[OF glob_search_key])
  from assms consider
      "cache st' = redis_del ''properties:*'' (cache st)"
    | "cache st' = redis_del (''myProperties:'' @ user_text (req_user_id req))
                     (redis_del ''properties:*'' (cache st))"
    using postProperty_cache deleteProperty_cache updateProperty_cache by blast
  then show ?thesis
  proof cases
    case 1
    then show ?thesis using gone by simp
  next
    case 2
    then show ?thesis using redis_get_del_None[OF gone] by simp
  qed
qed

lemma getProperties_fresh:
  assumes "buildFilter rt (req_query search) = Inr f"
    and "redis_get (clock st) (cache st) (''properties:'' @ JSON_stringify rt (JObj f)) = None"
  shows "fst (getProperties rt cfg search st) =
           Response 200 [(''message'', JStr ''Properties fetched successfully''),
                         (''properties'', q_find f (properties (store st)))]"
  using assms by (simp add: getProperties_def cacheAside_miss)

text \<open>
  Claim C1. After a successful create (201), delete (200) or update (200), no key that
  starts with \<^verbatim>\<open>properties:\<close> is readable in the cache store, at whatever time; so a search
  issued after the write, whatever its parameters, answers with the result that the
  persistence store holds after the write, never with a cached text.
\<close>

theorem search_after_write_is_fresh:
  assumes "postProperty req st = (Response 201 b, st')
         \<or> deleteProperty rt req st = (Response 200 b, st')
         \<or> updateProperty rt req st = (Response 200 b, st')"
  shows "(\<forall>k t. redis_get t (cache st') (''properties:'' @ k) = None)
       \<and> (\<forall>search f t. buildFilter rt (req_query search) = Inr f \<longrightarrow>
            fst (getProperties rt cfg search (st'\<lparr>clock := t\<rparr>)) =
              Response 200 [(''message'', JStr ''Properties fetched successfully''),
                            (''properties'', q_find f (properties (store st')))])"
proof (intro conjI allI impI)
  fix k t
  show "redis_get t (cache st') (''properties:'' @ k) = None"
    by (rule search_keys_gone[OF assms])
next
  fix search :: request and f t
  assume built: "buildFilter rt (req_query search) = Inr f"
  have absent: "redis_get (clock (st'\<lparr>clock := t\<rparr>)) (cache (st'\<lparr>clock := t\<rparr>))
          (''properties:'' @ JSON_stringify rt (JObj f)) = None"
    using search_keys_gone[OF assms, of t "JSON_stringify rt (JObj f)"] by simp
  have "fst (getProperties rt cfg search (st'\<lparr>clock := t\<rparr>)) =
              Response 200 [(''message'', JStr ''Properties fetched successfully''),
                (''properties'', q_find f (properties (store (st'\<lparr>clock := t\<rparr>))))]"
    using built absent by (rule getProperties_fresh)
  then show "fst (getProperties rt cfg search (st'\<lparr>clock := t\<rparr>)) =
              Response 200 [(''message'', JStr ''Properties fetched successfully''),
                            (''properties'', q_find f (properties (store st')))]"
    by simp
qed

lemmas store_defs = q_find_def matches_def constraint_holds_def op_holds_def apply_update_def
  q_createProperty_def

lemmas example_defs = cold_state_def example_request_def example_config_def flat_def
  alice_def bob_def flat_id_def empty_query_def

lemma update_example:
  "updateProperty node_rt example_request cached_state =
     (Response 200 [(''message'', JStr ''Property updated successfully''),
                    (''property'', JObj updated_flat)],
      snd (updateProperty node_rt example_request cached_state))"
  by (simp add: updateProperty_def Let_def cached_state_def updated_flat_def example_defs
      store_defs node_defs)

lemma update_example_store:
  "properties (store (snd (updateProperty node_rt example_request cached_state))) = [updated_flat]"
  by (simp add: updateProperty_def Let_def cached_state_def updated_flat_def example_defs
      store_defs node_defs)

theorem search_after_write_is_fresh_witness:
  "redis_get (clock cached_state) (cache cached_state) ''properties:{}'' = Some ''[]''
   \<and> (\<exists>b st'. updateProperty node_rt example_request cached_state = (Response 200 b, st')
        \<and> redis_get (clock cached_state) (cache st') ''properties:{}'' = None
        \<and> buildFilter node_rt (req_query example_request) = Inr []
        \<and> fst (getProperties node_rt example_config example_request st') =
            Response 200 [(''message'', JStr ''Properties fetched successfully''),
                          (''properties'', JArr [JObj updated_flat])])"
proof -
  let ?st' = "snd (updateProperty node_rt example_request cached_state)"
  have c: "redis_get (clock cached_state) (cache cached_state) ''properties:{}'' = Some ''[]''"
    by (simp add: redis_get_def cached_state_def cold_state_def)
  have f: "buildFilter node_rt (req_query example_request) = Inr []"
    by (simp add: example_request_def buildFilter_empty)
  have q: "q_find [] [updated_flat] = JArr [JObj updated_flat]"
    by (simp add: q_find_def matches_def)
  have t: "?st'\<lparr>clock := clock ?st'\<rparr> = ?st'"
    by simp
  note inst = search_after_write_is_fresh[of example_request cached_state _ ?st' node_rt
      example_config, OF disjI2, OF disjI2, OF update_example]
  from inst have g: "redis_get (clock cached_state) (cache ?st') (''properties:'' @ ''{}'') = None"
    by blast
  from inst f have "fst (getProperties node_rt example_config example_request
            (?st'\<lparr>clock := clock ?st'\<rparr>)) =
      Response 200 [(''message'', JStr ''Properties fetched successfully''),
                    (''properties'', q_find [] (properties (store ?st')))]"
    by blast
  then have r: "fst (getProperties node_rt example_config example_request ?st') =
      Response 200 [(''message'', JStr ''Properties fetched successfully''),
                    (''properties'', JArr [JObj updated_flat])]"
    unfolding t update_example_store q .
  from c update_example g f r show ?thesis by auto
qed

lemma redis_del_other: "\<not> glob_match p k \<Longrightarrow> redis_del p c k = c k"
  by (simp add: redis_del_def)

lemma postProperty_calls:
  "postProperty req st = (out, st') \<Longrightarrow>
     \<exists>d. calls st' = calls st @ [Query ''createProperty'' [JObj d], Redis_del ''properties:*'']"
  by (auto simp: postProperty_def Let_def q_createProperty_def)

lemma getMyProperties_cached:
  assumes "new_ObjectId rt (user_jv (req_user_id req)) = Some u"
    and "redis_get (clock st) (cache st) (''myProperties:'' @ user_text (req_user_id req)) = Some v"
    and "v \<noteq> []" and "JSON_parse rt v = Some j"
  shows "fst (getMyProperties rt cfg req st) =
           Response 200 [(''message'', JStr ''My properties fetched successfully from cache''),
                         (''properties'', j)]"
  using assms by (simp add: getMyProperties_def cacheAside_hit)

text \<open>
  Claim C10. A create leaves every cache entry whose key does not match \<^verbatim>\<open>properties:*\<close>
  as it was, the caller's entry \<^verbatim>\<open>myProperties:<callerId>\<close> among them: its only call to the
  cache store is the deletion of \<^verbatim>\<open>properties:*\<close>. So at every time at which that entry was
  live before the create, a my-properties read by the caller after the create still answers
  with the cached list.
\<close>

theorem create_keeps_my_properties_entry:
  assumes "postProperty req st = (out, st')"
  shows "cache st' (''myProperties:'' @ user_text (req_user_id req)) =
           cache st (''myProperties:'' @ user_text (req_user_id req))
       \<and> (\<forall>k. \<not> glob_match ''properties:*'' k \<longrightarrow> cache st' k = cache st k)
       \<and> (\<exists>d. calls st' = calls st @ [Query ''createProperty'' [JObj d], Redis_del ''properties:*''])
       \<and> (\<forall>rt cfg t v j.
            new_ObjectId rt (user_jv (req_user_id req)) \<noteq> None
            \<and> redis_get t (cache st) (''myProperties:'' @ user_text (req_user_id req)) = Some v
            \<and> v \<noteq> [] \<and> JSON_parse rt v = Some j \<longrightarrow>
            fst (getMyProperties rt cfg req (st'\<lparr>clock := t\<rparr>)) =
              Response 200 [(''message'', JStr ''My properties fetched successfully from cache''),
                            (''properties'', j)])"
proof -
  have c: "cache st' = redis_del ''properties:*'' (cache st)"
    using assms by (rule postProperty_cache)
  have keep: "\<not> glob_match ''properties:*'' k \<Longrightarrow> cache st' k = cache st k" for k
    unfolding c by (rule redis_del_other)
  have mine: "cache st' (''myProperties:'' @ user_text (req_user_id req)) =
           cache st (''myProperties:'' @ user_text (req_user_id req))"
    by (rule keep[OF glob_my_key])
  have served: "fst (getMyProperties rt cfg req (st'\<lparr>clock := t\<rparr>)) =
              Response 200 [(''message'', JStr ''My properties fetched successfully from cache''),
                            (''properties'', j)]"
    if "new_ObjectId rt (user_jv (req_user_id req)) \<noteq> None
            \<and> redis_get t (cache st) (''myProperties:'' @ user_text (req_user_id req)) = Some v
            \<and> v \<noteq> [] \<and> JSON_parse rt v = Some j" for rt cfg t v j
  proof -
    from that obtain u where u: "new_ObjectId rt (user_jv (req_user_id req)) = Some u"
      by blast
    have "redis_get t (cache st') (''myProperties:'' @ user_text (req_user_id req)) = Some v"
      using that mine by (simp add: redis_get_def)
    then have "redis_get (clock (st'\<lparr>clock := t\<rparr>)) (cache (st'\<lparr>clock := t\<rparr>))
        (''myProperties:'' @ user_text (req_user_id req)) = Some v"
      by simp
    from getMyProperties_cached[OF _ this, of rt u j cfg] u that show ?thesis
      by simp
  qed
  from mine keep postProperty_calls[OF assms] served show ?thesis
    by blast
qed

theorem create_keeps_my_properties_entry_witness:
  "redis_get 1704067200123 (cache cached_state) (''myProperties:'' @ alice) = Some ''[]''
   \<and> cache (snd (postProperty example_request cached_state)) (''myProperties:'' @ alice) =
       Some (1704067260000, ''[]'')
   \<and> fst (getMyProperties node_rt example_config example_request
            ((snd (postProperty example_request cached_state))\<lparr>clock := 1704067200123\<rparr>)) =
       Response 200 [(''message'', JStr ''My properties fetched successfully from cache''),
                     (''properties'', JArr [])]"
proof -
  let ?st' = "snd (postProperty example_request cached_state)"
  have p: "postProperty example_request cached_state =
             (fst (postProperty example_request cached_state), ?st')"
    by simp
  have u: "user_text (req_user_id example_request) = alice"
    by (simp add: example_request_def)
  have o: "new_ObjectId node_rt (user_jv (req_user_id example_request)) \<noteq> None"
    by (simp add: example_request_def node_defs)
  have c: "cache cached_state (''myProperties:'' @ alice) = Some (1704067260000, ''[]'')"
    by (simp add: cached_state_def alice_def)
  then have g: "redis_get 1704067200123 (cache cached_state) (''myProperties:'' @ alice) = Some ''[]''"
    by (simp add: redis_get_def)
  have j: "JSON_parse node_rt ''[]'' = Some (JArr [])"
    by (simp add: node_rt_def node_parse_def)
  note inst = create_keeps_my_properties_entry[OF p, unfolded u]
  from inst c have a: "cache ?st' (''myProperties:'' @ alice) = Some (1704067260000, ''[]'')"
    by simp
  from inst o g j
  have b: "fst (getMyProperties node_rt example_config example_request
            (?st'\<lparr>clock := 1704067200123\<rparr>)) =
       Response 200 [(''message'', JStr ''My properties fetched successfully from cache''),
                     (''properties'', JArr [])]"
    by blast
  from g a b show ?thesis by blast
qed

section \<open>Owner-scoped writes\<close>

lemma matches_id_owner:
  "matches d [(''_id'', JOid p), (''listerId'', JOid u)] =
     (map_of d ''_id'' = Some (JOid p) \<and> map_of d ''listerId'' = Some (JOid u))"
  "matches d [(''_id'', JStr s), (''listerId'', JOid u)] =
     (map_of d ''_id'' = Some (JStr s) \<and> map_of d ''listerId'' = Some (JOid u))"
  by (simp_all add: matches_def constraint_holds_def)

lemma q_updateProperty_none:
  "\<forall>d\<in>set ds. \<not> matches d f \<Longrightarrow> q_updateProperty f upd ds = (None, ds)"
  by (induction ds) auto

lemma q_deleteProperty_none:
  "\<forall>d\<in>set ds. \<not> matches d f \<Longrightarrow> q_deleteProperty f ds = (None, ds)"
  by (induction ds) auto

lemma update_miss:
  assumes "\<forall>d\<in>set (properties (store st)).
             has_ident rt (req_params_id req) d \<longrightarrow> \<not> owned_by rt (req_user_id req) d"
  shows "fst (updateProperty rt req st) =
           (case new_ObjectId rt (JStr (req_params_id req)) of
              None \<Rightarrow> Next BSONError
            | Some p \<Rightarrow>
                (case new_ObjectId rt (user_jv (req_user_id req)) of
                   None \<Rightarrow> Next BSONError
                 | Some u \<Rightarrow> update_404))"
proof (cases "new_ObjectId rt (JStr (req_params_id req))")
  case None
  then show ?thesis by (simp add: updateProperty_def)
next
  case p: (Some p)
  show ?thesis
  proof (cases "new_ObjectId rt (user_jv (req_user_id req))")
    case None
    with p show ?thesis by (simp add: updateProperty_def)
  next
    case u: (Some u)
    have "\<forall>d\<in>set (properties (store st)).
            \<not> matches d [(''_id'', JOid p), (''listerId'', JOid u)]"
      using assms p u by (auto simp: matches_id_owner has_ident_def owned_by_def)
    from q_updateProperty_none[OF this] p u show ?thesis
      by (simp add: updateProperty_def update_404_def)
  qed
qed

lemma delete_miss:
  assumes "\<forall>d\<in>set (properties (store st)).
             has_ident rt (req_params_id req) d \<longrightarrow> \<not> owned_by rt (req_user_id req) d"
  shows "fst (deleteProperty rt req st) =
           (case new_ObjectId rt (user_jv (req_user_id req)) of
              None \<Rightarrow> Next BSONError
            | Some u \<Rightarrow> delete_404)"
proof (cases "new_ObjectId rt (user_jv (req_user_id req))")
  case None
  then show ?thesis by (simp add: deleteProperty_def)
next
  case u: (Some u)
  have "\<forall>d\<in>set (properties (store st)).
          \<not> matches d [(''_id'', JStr (req_params_id req)), (''listerId'', JOid u)]"
    using assms u by (auto simp: matches_id_owner has_ident_def owned_by_def)
  from q_deleteProperty_none[OF this] u show ?thesis
    by (simp add: deleteProperty_def delete_404_def)
qed

text \<open>
  Claim C6. Take a request to update or to delete, a state in which the target property
  exists but every property carrying the identifier is owned by another lister, and a state
  in which no property carries the identifier. The response is the same in both states, for
  update and for delete; when the identifiers of the request are accepted by
  \<^verbatim>\<open>new ObjectId\<close> it is the status 404 with the fixed message of the operation.
\<close>

theorem foreign_and_missing_alike:
  assumes "\<exists>d\<in>set (properties (store st1)). has_ident rt (req_params_id req) d"
    and "\<forall>d\<in>set (properties (store st1)).
           has_ident rt (req_params_id req) d \<longrightarrow> \<not> owned_by rt (req_user_id req) d"
    and "\<forall>d\<in>set (properties (store st2)). \<not> has_ident rt (req_params_id req) d"
  shows "fst (updateProperty rt req st1) = fst (updateProperty rt req st2)
       \<and> fst (deleteProperty rt req st1) = fst (deleteProperty rt req st2)
       \<and> (new_ObjectId rt (JStr (req_params_id req)) \<noteq> None
          \<and> new_ObjectId rt (user_jv (req_user_id req)) \<noteq> None \<longrightarrow>
            fst (updateProperty rt req st1) = update_404)
       \<and> (new_ObjectId rt (user_jv (req_user_id req)) \<noteq> None \<longrightarrow>
            fst (deleteProperty rt req st1) = delete_404)"
proof -
  from assms(3) have none: "\<forall>d\<in>set (properties (store st2)).
      has_ident rt (req_params_id req) d \<longrightarrow> \<not> owned_by rt (req_user_id req) d"
    by blast
  show ?thesis
    unfolding update_miss[OF assms(2)] update_miss[OF none]
      delete_miss[OF assms(2)] delete_miss[OF none]
    by auto
qed

theorem foreign_and_missing_alike_witness:
  "properties (store cold_state) = [flat]
   \<and> has_ident node_rt (req_params_id foreign_request) flat
   \<and> \<not> owned_by node_rt (req_user_id foreign_request) flat
   \<and> properties (store empty_state) = []
   \<and> fst (updateProperty node_rt foreign_request cold_state) = update_404
   \<and> fst (updateProperty node_rt foreign_request empty_state) = update_404
   \<and> fst (deleteProperty node_rt foreign_request cold_state) = delete_404
   \<and> fst (deleteProperty node_rt foreign_request empty_state) = delete_404"
proof -
  have a: "\<exists>d\<in>set (properties (store cold_state)).
             has_ident node_rt (req_params_id foreign_request) d"
    by (simp add: has_ident_def foreign_request_def example_defs node_defs)
  have b: "\<forall>d\<in>set (properties (store cold_state)).
         has_ident node_rt (req_params_id foreign_request) d \<longrightarrow>
           \<not> owned_by node_rt (req_user_id foreign_request) d"
    by (simp add: owned_by_def foreign_request_def example_defs node_defs)
  have c: "\<forall>d\<in>set (properties (store empty_state)).
         \<not> has_ident node_rt (req_params_id foreign_request) d"
    by (simp add: empty_state_def)
  have i: "new_ObjectId node_rt (JStr (req_params_id foreign_request)) \<noteq> None"
    "new_ObjectId node_rt (user_jv (req_user_id foreign_request)) \<noteq> None"
    by (simp_all add: foreign_request_def example_defs node_defs)
  note inst = foreign_and_missing_alike[OF a b c]
  from inst i have u1: "fst (updateProperty node_rt foreign_request cold_state) = update_404"
    by blast
  from inst i have d1: "fst (deleteProperty node_rt foreign_request cold_state) = delete_404"
    by blast
  from inst u1 have u2: "fst (updateProperty node_rt foreign_request empty_state) = update_404"
    by simp
  from inst d1 have d2: "fst (deleteProperty node_rt foreign_request empty_state) = delete_404"
    by simp
  have s1: "properties (store cold_state) = [flat]"
    by (simp add: cold_state_def)
  have s2: "properties (store empty_state) = []"
    by (simp add: empty_state_def)
  from a s1 have h: "has_ident node_rt (req_params_id foreign_request) flat"
    by simp
  from b s1 h have o: "\<not> owned_by node_rt (req_user_id foreign_request) flat"
    by simp
  show ?thesis
    by (intro conjI) (rule s1 h o s2 u1 u2 d1 d2)+
qed

lemma map_of_assign: "map_of (assign k v d) k' = (if k' = k then Some v else map_of d k')"
  by (induction d) auto

lemma map_of_fold_assign:
  "map_of (fold (\<lambda>(k, v). assign k v) kvs d) k =
     (case map_of (rev kvs) k of Some v \<Rightarrow> Some v | None \<Rightarrow> map_of d k)"
proof (induction kvs arbitrary: d)
  case Nil
  then show ?case by simp
next
  case (Cons kv kvs)
  obtain k' v' where kv: "kv = (k', v')" by (cases kv)
  show ?case
    by (simp add: Cons.IH kv map_of_assign map_add_def split: option.splits)
qed

lemma apply_update_set:
  "map_of (apply_update (JObj [(''$set'', JObj body)]) d) k =
     (case map_of (rev body) k of Some v \<Rightarrow> Some v | None \<Rightarrow> map_of d k)"
  by (simp add: apply_update_def map_of_fold_assign)

lemma q_updateProperty_some:
  "q_updateProperty f upd ds = (Some d', ds') \<Longrightarrow>
     \<exists>d\<in>set ds. matches d f \<and> d' = apply_update upd d \<and> d' \<in> set ds'"
proof (induction ds arbitrary: ds')
  case Nil
  then show ?case by simp
next
  case (Cons d ds)
  show ?case
  proof (cases "matches d f")
    case True
    with Cons.prems show ?thesis by auto
  next
    case False
    with Cons.prems obtain ds0 where "q_updateProperty f upd ds = (Some d', ds0)" "ds' = d # ds0"
      by (auto split: prod.splits)
    with Cons.IH[of ds0] show ?thesis by auto
  qed
qed

lemma updateProperty_200:
  assumes "updateProperty rt req st = (Response 200 b, st')"
  obtains p u d' where
    "new_ObjectId rt (JStr (req_params_id req)) = Some p"
    "new_ObjectId rt (user_jv (req_user_id req)) = Some u"
    "q_updateProperty [(''_id'', JOid p), (''listerId'', JOid u)]
       (JObj [(''$set'', JObj (req_body req))]) (properties (store st))
     = (Some d', properties (store st'))"
    "b = [(''message'', JStr ''Property updated successfully''), (''property'', JObj d')]"
    "calls st' = calls st @
       [Query ''updateProperty''
          [JObj [(''_id'', JOid p), (''listerId'', JOid u)],
           JObj [(''$set'', JObj (req_body req))]],
        Redis_del ''properties:*'',
        Redis_del (''myProperties:'' @ user_text (req_user_id req))]"
  using assms
  by (auto simp: updateProperty_def Let_def split: option.splits prod.splits)

text \<open>
  Claim C9. A successful update hands the request body to the persistence store as it is,
  as the \<^verbatim>\<open>$set\<close> of the update document, next to the filter on identifier and owner. The
  record that matched is stored and returned with every field of the body set to the
  body's value and every other field as before; no field is exempt, \<^verbatim>\<open>isVerified\<close> and
  \<^verbatim>\<open>listerId\<close> included.
\<close>

theorem update_sets_every_body_field:
  assumes "updateProperty rt req st = (Response 200 b, st')"
  shows "\<exists>p u d d'.
           new_ObjectId rt (JStr (req_params_id req)) = Some p
         \<and> new_ObjectId rt (user_jv (req_user_id req)) = Some u
         \<and> calls st' = calls st @
             [Query ''updateProperty''
                [JObj [(''_id'', JOid p), (''listerId'', JOid u)],
                 JObj [(''$set'', JObj (req_body req))]],
              Redis_del ''properties:*'',
              Redis_del (''myProperties:'' @ user_text (req_user_id req))]
         \<and> d \<in> set (properties (store st))
         \<and> matches d [(''_id'', JOid p), (''listerId'', JOid u)]
         \<and> d' \<in> set (properties (store st'))
         \<and> b = [(''message'', JStr ''Property updated successfully''), (''property'', JObj d')]
         \<and> (\<forall>k. map_of d' k =
                (case map_of (rev (req_body req)) k of
                   Some v \<Rightarrow> Some v
                 | None \<Rightarrow> map_of d k))"
proof -
  from assms obtain p u d' where
    p: "new_ObjectId rt (JStr (req_params_id req)) = Some p" and
    u: "new_ObjectId rt (user_jv (req_user_id req)) = Some u" and
    q: "q_updateProperty [(''_id'', JOid p), (''listerId'', JOid u)]
       (JObj [(''$set'', JObj (req_body req))]) (properties (store st))
     = (Some d', properties (store st'))" and
    b: "b = [(''message'', JStr ''Property updated successfully''), (''property'', JObj d')]" and
    c: "calls st' = calls st @
       [Query ''updateProperty''
          [JObj [(''_id'', JOid p), (''listerId'', JOid u)],
           JObj [(''$set'', JObj (req_body req))]],
        Redis_del ''properties:*'',
        Redis_del (''myProperties:'' @ user_text (req_user_id req))]"
    by (rule updateProperty_200)
  from q_updateProperty_some[OF q] obtain d where
    d: "d \<in> set (properties (store st))"
       "matches d [(''_id'', JOid p), (''listerId'', JOid u)]"
       "d' = apply_update (JObj [(''$set'', JObj (req_body req))]) d"
       "d' \<in> set (properties (store st'))"
    by blast
  have "\<forall>k. map_of d' k =
          (case map_of (rev (req_body req)) k of Some v \<Rightarrow> Some v | None \<Rightarrow> map_of d k)"
    unfolding d(3) by (simp add: apply_update_set)
  with p u c d b show ?thesis by blast
qed

lemma takeover_example:
  "updateProperty node_rt takeover_request cold_state =
     (Response 200 [(''message'', JStr ''Property updated successfully''),
                    (''property'', JObj taken_flat)],
      snd (updateProperty node_rt takeover_request cold_state))"
  by (simp add: updateProperty_def Let_def takeover_request_def taken_flat_def example_defs
      store_defs node_defs)

theorem update_sets_every_body_field_witness:
  "updateProperty node_rt takeover_request cold_state =
     (Response 200 [(''message'', JStr ''Property updated successfully''),
                    (''property'', JObj taken_flat)],
      snd (updateProperty node_rt takeover_request cold_state))
   \<and> properties (store cold_state) = [flat]
   \<and> map_of flat ''isVerified'' = Some (JBool False)
   \<and> map_of flat ''listerId'' = Some (JOid alice)
   \<and> (\<exists>d'. d' \<in> set (properties (store (snd (updateProperty node_rt takeover_request cold_state))))
        \<and> map_of d' ''isVerified'' = Some (JBool True)
        \<and> map_of d' ''listerId'' = Some (JOid bob)
        \<and> map_of d' ''title'' = Some (JStr ''Loft''))"
proof -
  from update_sets_every_body_field[OF takeover_example] obtain d d' where
    d: "d \<in> set (properties (store cold_state))"
       "d' \<in> set (properties (store (snd (updateProperty node_rt takeover_request cold_state))))"
       "\<forall>k. map_of d' k =
          (case map_of (rev (req_body takeover_request)) k of
             Some v \<Rightarrow> Some v
           | None \<Rightarrow> map_of d k)"
    by blast
  have s: "properties (store cold_state) = [flat]"
    by (simp add: cold_state_def)
  with d(1) have "d = flat" by simp
  with d(3) have "map_of d' ''isVerified'' = Some (JBool True)"
    "map_of d' ''listerId'' = Some (JOid bob)" "map_of d' ''title'' = Some (JStr ''Loft'')"
    by (simp_all add: takeover_request_def example_request_def flat_def)
  with d(2) s takeover_example show ?thesis
    by (auto simp: flat_def)
qed

text \<open>
  Claim C5 has the delete use the filter of the update, the identifier parsed identically.
  The update reads the identifier with \<^verbatim>\<open>new ObjectId\<close> (line 152); the delete passes the
  text of the route parameter (line 125). At the identifier of a property that the caller
  owns, the two filters differ in their \<^verbatim>\<open>_id\<close> entry, and against this store, which keeps
  \<^verbatim>\<open>_id\<close> as an \<^verbatim>\<open>ObjectId\<close>, the update succeeds where the delete answers 404. At a malformed
  identifier the update fails with the error of \<^verbatim>\<open>new ObjectId\<close> before any call to a store,
  where the delete queries the store and answers 404.
\<close>

theorem delete_filter_keeps_raw_identifier:
  "calls (snd (updateProperty node_rt example_request cold_state)) ! 0 =
     Query ''updateProperty''
       [JObj [(''_id'', JOid flat_id), (''listerId'', JOid alice)],
        JObj [(''$set'', JObj [(''title'', JStr ''Studio'')])]]
   \<and> calls (snd (deleteProperty node_rt example_request cold_state)) ! 0 =
     Query ''deleteProperty'' [JObj [(''_id'', JStr flat_id), (''listerId'', JOid alice)]]
   \<and> (\<exists>b. fst (updateProperty node_rt example_request cold_state) = Response 200 b)
   \<and> fst (deleteProperty node_rt example_request cold_state) = delete_404
   \<and> updateProperty node_rt malformed_request cold_state = (Next BSONError, cold_state)
   \<and> fst (deleteProperty node_rt malformed_request cold_state) = delete_404
   \<and> calls (snd (deleteProperty node_rt malformed_request cold_state)) =
       [Query ''deleteProperty'' [JObj [(''_id'', JStr ''42''), (''listerId'', JOid alice)]]]"
  by (simp add: updateProperty_def deleteProperty_def Let_def malformed_request_def
      delete_404_def example_defs store_defs node_defs)

section \<open>Create, then read by the owner\<close>

lemma show_nat_clock: "show_nat 1704067200123 = ''1704067200123''"
  by (simp add: show_nat_small show_nat_big)

lemma create_example:
  "postProperty example_request cached_state =
     (Response 201 [(''message'', JStr ''Property listed successfully''),
                    (''property'', JObj created_studio)],
      snd (postProperty example_request cached_state))"
  by (simp add: postProperty_def Let_def cached_state_def created_studio_def example_defs
      store_defs show_nat_clock)

lemma create_example_store:
  "properties (store (snd (postProperty example_request cached_state))) = [flat, created_studio]"
  by (simp add: postProperty_def Let_def cached_state_def created_studio_def example_defs
      store_defs show_nat_clock)

text \<open>
  Claim C2 has the read of the caller's own properties after a create return the created
  entity. Here the caller's list was cached (as the empty list) before the create, and the
  read comes within the TTL, at the time of the create: the entity is created and stored
  with \<^verbatim>\<open>isVerified\<close> false and the caller as \<^verbatim>\<open>listerId\<close>, and the read answers from the cache
  with the list from before the create, which does not hold it. Update and delete evict
  \<^verbatim>\<open>myProperties:<callerId>\<close> (lines 137 and 164); create does not.
\<close>

theorem create_then_read_serves_cached_list:
  "redis_get (clock cached_state) (cache cached_state) (''myProperties:'' @ alice) = Some ''[]''
   \<and> fst (postProperty example_request cached_state) =
       Response 201 [(''message'', JStr ''Property listed successfully''),
                     (''property'', JObj created_studio)]
   \<and> properties (store (snd (postProperty example_request cached_state))) = [flat, created_studio]
   \<and> map_of created_studio ''isVerified'' = Some (JBool False)
   \<and> map_of created_studio ''listerId'' = Some (user_jv (req_user_id example_request))
   \<and> fst (getMyProperties node_rt example_config example_request
            (snd (postProperty example_request cached_state))) =
       Response 200 [(''message'', JStr ''My properties fetched successfully from cache''),
                     (''properties'', JArr [])]"
proof -
  let ?st' = "snd (postProperty example_request cached_state)"
  have g: "redis_get (clock cached_state) (cache cached_state) (''myProperties:'' @ alice)
             = Some ''[]''"
    by (simp add: redis_get_def cached_state_def cold_state_def alice_def)
  have c: "cache ?st' = redis_del ''properties:*'' (cache cached_state)"
    by (rule postProperty_cache[of example_request cached_state "fst (postProperty example_request cached_state)"]) simp
  have k: "clock ?st' = clock cached_state"
    by (simp add: postProperty_def Let_def q_createProperty_def)
  have m: "cache ?st' (''myProperties:'' @ alice) = cache cached_state (''myProperties:'' @ alice)"
    unfolding c by (rule redis_del_other[OF glob_my_key])
  have u: "user_text (req_user_id example_request) = alice"
    by (simp add: example_request_def)
  have "redis_get (clock ?st') (cache ?st') (''myProperties:'' @ user_text (req_user_id example_request))
          = Some ''[]''"
    unfolding u redis_get_def m k using g[unfolded redis_get_def] .
  then have r: "fst (getMyProperties node_rt example_config example_request ?st') =
       Response 200 [(''message'', JStr ''My properties fetched successfully from cache''),
                     (''properties'', JArr [])]"
    by (rule getMyProperties_cached[rotated])
       (simp_all add: example_request_def node_defs node_parse_def alice_def)
  have p1: "fst (postProperty example_request cached_state) =
       Response 201 [(''message'', JStr ''Property listed successfully''),
                     (''property'', JObj created_studio)]"
    by (subst create_example) simp
  have p2: "map_of created_studio ''isVerified'' = Some (JBool False)"
    by (simp add: created_studio_def)
  have p3: "map_of created_studio ''listerId'' = Some (user_jv (req_user_id example_request))"
    by (simp add: created_studio_def example_request_def)
  show ?thesis
    by (intro conjI) (rule g p1 create_example_store p2 p3 r)+
qed

section \<open>The date and the identifier lists of the filter\<close>

lemma set_key_if: "x \<in> set (key_if b k) \<longleftrightarrow> b \<and> x = k"
  by (auto simp: key_if_def)

lemma map_of_tail: "k \<notin> set (map fst zs) \<Longrightarrow> map_of (ys @ zs) k = map_of ys k"
  by (induction ys) (auto simp: map_of_eq_None_iff)

lemma map_of_middle:
  "k \<notin> set (map fst xs) \<Longrightarrow> k \<notin> set (map fst zs) \<Longrightarrow> map_of (xs @ ys @ zs) k = map_of ys k"
  using map_of_skip[of k xs "ys @ zs"] map_of_tail[of k zs ys] by simp

lemma buildFilter_availableFrom:
  assumes "buildFilter rt q = Inr f"
  shows "map_of f ''availableFrom'' = map_of (date_field rt ''availableFrom'' (availableFrom q)) ''availableFrom''"
proof -
  from assms obtain f1 f2 f3 f12 f13 where
    h: "oid_field rt ''typeId'' (typeId q) = Inr f1"
    "oid_field rt ''stateId'' (stateId q) = Inr f2"
    "oid_field rt ''cityId'' (cityId q) = Inr f3"
    "all_field rt ''amenityIds'' (processedIds (amenityIds q)) = Inr f12"
    "all_field rt ''tagIds'' (processedIds (tagIds q)) = Inr f13"
    and f: "f = f1 @ f2 @ f3
            @ regex_field ''title'' (title q)
            @ date_field rt ''availableFrom'' (availableFrom q)
            @ price_field rt (minPrice q) (maxPrice q)
            @ min_field rt ''bedrooms'' (minBedrooms q)
            @ min_field rt ''bathrooms'' (minBathrooms q)
            @ min_field rt ''rating'' (minRating q)
            @ raw_field ''listingType'' (listingType q)
            @ raw_field ''furnished'' (furnished q)
            @ f12 @ f13"
    by (rule buildFilter_Inr)
  let ?pre = "f1 @ f2 @ f3 @ regex_field ''title'' (title q)"
  let ?post = "price_field rt (minPrice q) (maxPrice q)
            @ min_field rt ''bedrooms'' (minBedrooms q)
            @ min_field rt ''bathrooms'' (minBathrooms q)
            @ min_field rt ''rating'' (minRating q)
            @ raw_field ''listingType'' (listingType q)
            @ raw_field ''furnished'' (furnished q)
            @ f12 @ f13"
  have pre: "''availableFrom'' \<notin> set (map fst ?pre)"
    by (simp add: oid_field_keys[OF h(1)] oid_field_keys[OF h(2)] oid_field_keys[OF h(3)]
        regex_field_keys set_key_if)
  have post: "''availableFrom'' \<notin> set (map fst ?post)"
    by (simp add: all_field_keys[OF h(4)] all_field_keys[OF h(5)] price_field_keys
        min_field_keys raw_field_keys set_key_if)
  have fe: "f = ?pre @ date_field rt ''availableFrom'' (availableFrom q) @ ?post"
    unfolding f by simp
  show ?thesis
    unfolding fe by (rule map_of_middle[OF pre post])
qed


lemma cacheAside_calls:
  "\<exists>rest. calls (snd (cacheAside rt k ttl hm mm fld q r st)) = calls st @ Redis_get k # rest"
  by (auto simp: cacheAside_def Let_def split: option.splits)

lemma getProperties_calls:
  "buildFilter rt (req_query req) = Inr f \<Longrightarrow>
     \<exists>rest. calls (snd (getProperties rt cfg req st)) =
       calls st @ Redis_get (''properties:'' @ JSON_stringify rt (JObj f)) # rest"
  by (simp add: getProperties_def cacheAside_calls)

text \<open>
  Claim C7, as stated, fails: the search with \<^verbatim>\<open>availableFrom=not-a-date\<close> raises nothing.
  \<^verbatim>\<open>new Date\<close> returns an Invalid Date, the filter is built with it, the cache store is asked
  for the key of that filter, the persistence store is queried and the result is cached and
  returned with status 200.
\<close>

theorem unparseable_date_is_not_refused:
  "new_Date node_rt (JStr ''not-a-date'') = None
   \<and> availableFrom (req_query undated_request) = Some (QStr ''not-a-date'')
   \<and> buildFilter node_rt (req_query undated_request) = Inr undated_filter
   \<and> getProperties node_rt example_config undated_request cold_state =
       (Response 200 [(''message'', JStr ''Properties fetched successfully''),
                      (''properties'', JArr [])],
        cold_state\<lparr>cache := (cache cold_state)(undated_key \<mapsto> (1704067260123, ''[]'')),
                   calls := [Redis_get undated_key,
                             Query ''getProperties'' [JObj undated_filter],
                             Redis_setex undated_key 60 ''[]'']\<rparr>)"
proof -
  have d: "new_Date node_rt (JStr ''not-a-date'') = None"
    by (simp add: node_defs)
  have a: "availableFrom (req_query undated_request) = Some (QStr ''not-a-date'')"
    by (simp add: undated_request_def)
  have f: "buildFilter node_rt (req_query undated_request) = Inr undated_filter"
    by (simp add: buildFilter_def ebind_def undated_request_def undated_filter_def
        empty_query_def field_defs node_defs)
  have m: "redis_get (clock cold_state) (cache cold_state) undated_key = None"
    by (simp add: redis_get_def cold_state_def)
  have r: "q_find undated_filter (properties (store cold_state)) = JArr []"
    by (simp add: undated_filter_def example_defs store_defs)
  have s: "JSON_stringify node_rt (JArr []) = ''[]''"
    by (simp add: node_rt_def)
  have k: "''properties:'' @ JSON_stringify node_rt (JObj undated_filter) = undated_key"
    by (simp add: undated_key_def node_rt_def)
  have c: "calls cold_state = []" "PROPERTY_CACHE_TTL example_config = 60"
    by (simp_all add: cold_state_def example_config_def)
  have e: "clock cold_state + 60 * 1000 = 1704067260123"
    by (simp add: cold_state_def)
  have "getProperties node_rt example_config undated_request cold_state =
       (Response 200 [(''message'', JStr ''Properties fetched successfully''),
                      (''properties'', JArr [])],
        cold_state\<lparr>cache := (cache cold_state)(undated_key \<mapsto> (1704067260123, ''[]'')),
                   calls := [Redis_get undated_key,
                             Query ''getProperties'' [JObj undated_filter],
                             Redis_setex undated_key 60 ''[]'']\<rparr>)"
    unfolding getProperties_def f sum.case k r c(2)
    by (subst cacheAside_miss[OF m], unfold s c(1) e append.simps, rule refl)
  with d a f show ?thesis by blast
qed

text \<open>
  Claim C7, amended. A search whose \<^verbatim>\<open>availableFrom\<close> is given but does not parse as a date
  is not refused on that account: when the identifiers among its parameters are accepted,
  the filter is built and carries \<^verbatim>\<open>availableFrom: {$lte: Invalid Date}\<close>, the handler asks
  the cache store for the key of that filter, and when the key is absent it answers 200 with
  what the persistence store returns for the filter.
\<close>

theorem unparseable_date_builds_a_filter:
  assumes "availableFrom (req_query req) = Some v" and "truthy (Some v)"
    and "new_Date rt (qv v) = None"
    and "list_all (\<lambda>v. new_ObjectId rt v \<noteq> None) (id_args (req_query req))"
  shows "\<exists>f. buildFilter rt (req_query req) = Inr f
       \<and> map_of f ''availableFrom'' = Some (JObj [(''$lte'', JDate None)])
       \<and> (\<exists>rest. calls (snd (getProperties rt cfg req st)) =
             calls st @ Redis_get (''properties:'' @ JSON_stringify rt (JObj f)) # rest)
       \<and> (redis_get (clock st) (cache st) (''properties:'' @ JSON_stringify rt (JObj f)) = None \<longrightarrow>
             fst (getProperties rt cfg req st) =
               Response 200 [(''message'', JStr ''Properties fetched successfully''),
                             (''properties'', q_find f (properties (store st)))])"
proof -
  from buildFilter_total[OF assms(4)] obtain f where f: "buildFilter rt (req_query req) = Inr f"
    by blast
  have "map_of f ''availableFrom'' = Some (JObj [(''$lte'', JDate None)])"
    unfolding buildFilter_availableFrom[OF f] using assms(1-3)
    by (simp add: date_field_def)
  with f getProperties_calls[OF f] getProperties_fresh[OF f] show ?thesis
    by blast
qed

theorem unparseable_date_builds_a_filter_witness:
  "availableFrom (req_query undated_request) = Some (QStr ''not-a-date'')
   \<and> truthy (Some (QStr ''not-a-date''))
   \<and> new_Date node_rt (qv (QStr ''not-a-date'')) = None
   \<and> list_all (\<lambda>v. new_ObjectId node_rt v \<noteq> None) (id_args (req_query undated_request))
   \<and> (\<exists>f. buildFilter node_rt (req_query undated_request) = Inr f
        \<and> map_of f ''availableFrom'' = Some (JObj [(''$lte'', JDate None)])
        \<and> fst (getProperties node_rt example_config undated_request cold_state) =
             Response 200 [(''message'', JStr ''Properties fetched successfully''),
                           (''properties'', q_find f (properties (store cold_state)))])"
proof -
  have a: "availableFrom (req_query undated_request) = Some (QStr ''not-a-date'')"
    by (simp add: undated_request_def)
  have t: "truthy (Some (QStr ''not-a-date''))"
    by simp
  have d: "new_Date node_rt (qv (QStr ''not-a-date'')) = None"
    by (simp add: node_defs)
  have i: "list_all (\<lambda>v. new_ObjectId node_rt v \<noteq> None) (id_args (req_query undated_request))"
    by (simp add: id_args_def id_arg_def id_list_args_def undated_request_def empty_query_def)
  have m: "redis_get (clock cold_state) (cache cold_state) k = None" for k
    by (simp add: redis_get_def cold_state_def)
  from unparseable_date_builds_a_filter[OF a t d i, of example_config cold_state]
  obtain f where f: "buildFilter node_rt (req_query undated_request) = Inr f"
    "map_of f ''availableFrom'' = Some (JObj [(''$lte'', JDate None)])"
    "redis_get (clock cold_state) (cache cold_state)
       (''properties:'' @ JSON_stringify node_rt (JObj f)) = None \<longrightarrow>
     fst (getProperties node_rt example_config undated_request cold_state) =
       Response 200 [(''message'', JStr ''Properties fetched successfully''),
                     (''properties'', q_find f (properties (store cold_state)))]"
    by (elim exE conjE)
  from f(3) m have g: "fst (getProperties node_rt example_config undated_request cold_state) =
       Response 200 [(''message'', JStr ''Properties fetched successfully''),
                     (''properties'', q_find f (properties (store cold_state)))]"
    by (rule mp)
  show ?thesis
    by (intro conjI exI[of _ f]) (rule a t d i f(1) f(2) g)+
qed

lemma map_ObjectId_parsed:
  "map_ObjectId rt xs = Inr hs \<Longrightarrow> list_all2 (parsed rt) xs hs"
  by (induction xs arbitrary: hs) (auto simp: parsed_def split: option.splits sum.splits)

lemma all_field_id_list:
  assumes "all_field rt k (processedIds p) = Inr f"
  shows "case id_list p of
           None \<Rightarrow> f = []
         | Some xs \<Rightarrow> \<exists>hs. list_all2 (parsed rt) xs hs \<and> f = [(k, JObj [(''$all'', JArr hs)])]"
proof (cases p rule: truthy.cases)
  case 1
  with assms show ?thesis by (simp add: all_field_def processedIds_def id_list_def)
next
  case (2 s)
  with assms show ?thesis
    by (auto simp: all_field_def processedIds_def id_list_def parsed_def
        split: option.splits sum.splits if_splits)
next
  case (3 xs)
  with assms show ?thesis
    by (auto simp: all_field_def processedIds_def id_list_def map_ObjectId_parsed
        split: sum.splits)
qed

lemma buildFilter_amenityIds:
  assumes "buildFilter rt q = Inr f"
  obtains f12 where "all_field rt ''amenityIds'' (processedIds (amenityIds q)) = Inr f12"
    and "map_of f ''amenityIds'' = map_of f12 ''amenityIds''"
proof -
  from assms obtain f1 f2 f3 f12 f13 where
    h: "oid_field rt ''typeId'' (typeId q) = Inr f1"
    "oid_field rt ''stateId'' (stateId q) = Inr f2"
    "oid_field rt ''cityId'' (cityId q) = Inr f3"
    "all_field rt ''amenityIds'' (processedIds (amenityIds q)) = Inr f12"
    "all_field rt ''tagIds'' (processedIds (tagIds q)) = Inr f13"
    and f: "f = f1 @ f2 @ f3
            @ regex_field ''title'' (title q)
            @ date_field rt ''availableFrom'' (availableFrom q)
            @ price_field rt (minPrice q) (maxPrice q)
            @ min_field rt ''bedrooms'' (minBedrooms q)
            @ min_field rt ''bathrooms'' (minBathrooms q)
            @ min_field rt ''rating'' (minRating q)
            @ raw_field ''listingType'' (listingType q)
            @ raw_field ''furnished'' (furnished q)
            @ f12 @ f13"
    by (rule buildFilter_Inr)
  let ?pre = "f1 @ f2 @ f3
            @ regex_field ''title'' (title q)
            @ date_field rt ''availableFrom'' (availableFrom q)
            @ price_field rt (minPrice q) (maxPrice q)
            @ min_field rt ''bedrooms'' (minBedrooms q)
            @ min_field rt ''bathrooms'' (minBathrooms q)
            @ min_field rt ''rating'' (minRating q)
            @ raw_field ''listingType'' (listingType q)
            @ raw_field ''furnished'' (furnished q)"
  have pre: "''amenityIds'' \<notin> set (map fst ?pre)"
    by (simp add: oid_field_keys[OF h(1)] oid_field_keys[OF h(2)] oid_field_keys[OF h(3)]
        regex_field_keys date_field_keys price_field_keys min_field_keys raw_field_keys
        set_key_if)
  have post: "''amenityIds'' \<notin> set (map fst f13)"
    by (simp add: all_field_keys[OF h(5)] set_key_if)
  have fe: "f = ?pre @ f12 @ f13"
    unfolding f by simp
  have "map_of f ''amenityIds'' = map_of f12 ''amenityIds''"
    unfolding fe by (rule map_of_middle[OF pre post])
  with h(4) that show ?thesis by blast
qed

lemma buildFilter_tagIds:
  assumes "buildFilter rt q = Inr f"
  obtains f13 where "all_field rt ''tagIds'' (processedIds (tagIds q)) = Inr f13"
    and "map_of f ''tagIds'' = map_of f13 ''tagIds''"
proof -
  from assms obtain f1 f2 f3 f12 f13 where
    h: "oid_field rt ''typeId'' (typeId q) = Inr f1"
    "oid_field rt ''stateId'' (stateId q) = Inr f2"
    "oid_field rt ''cityId'' (cityId q) = Inr f3"
    "all_field rt ''amenityIds'' (processedIds (amenityIds q)) = Inr f12"
    "all_field rt ''tagIds'' (processedIds (tagIds q)) = Inr f13"
    and f: "f = f1 @ f2 @ f3
            @ regex_field ''title'' (title q)
            @ date_field rt ''availableFrom'' (availableFrom q)
            @ price_field rt (minPrice q) (maxPrice q)
            @ min_field rt ''bedrooms'' (minBedrooms q)
            @ min_field rt ''bathrooms'' (minBathrooms q)
            @ min_field rt ''rating'' (minRating q)
            @ raw_field ''listingType'' (listingType q)
            @ raw_field ''furnished'' (furnished q)
            @ f12 @ f13"
    by (rule buildFilter_Inr)
  let ?pre = "f1 @ f2 @ f3
            @ regex_field ''title'' (title q)
            @ date_field rt ''availableFrom'' (availableFrom q)
            @ price_field rt (minPrice q) (maxPrice q)
            @ min_field rt ''bedrooms'' (minBedrooms q)
            @ min_field rt ''bathrooms'' (minBathrooms q)
            @ min_field rt ''rating'' (minRating q)
            @ raw_field ''listingType'' (listingType q)
            @ raw_field ''furnished'' (furnished q)
            @ f12"
  have pre: "''tagIds'' \<notin> set (map fst ?pre)"
    by (simp add: oid_field_keys[OF h(1)] oid_field_keys[OF h(2)] oid_field_keys[OF h(3)]
        regex_field_keys date_field_keys price_field_keys min_field_keys raw_field_keys
        all_field_keys[OF h(4)] set_key_if)
  have fe: "f = ?pre @ f13"
    unfolding f by simp
  have "map_of f ''tagIds'' = map_of f13 ''tagIds''"
    unfolding fe by (rule map_of_skip[OF pre])
  with h(5) that show ?thesis by blast
qed

lemma all_holds:
  "constraint_holds fv (JObj [(''$all'', JArr hs)]) \<longleftrightarrow>
     (\<exists>ys. fv = Some (JArr ys) \<and> set hs \<subseteq> set ys)"
  by (auto simp: constraint_holds_def op_holds_def list_all_iff split: option.splits jv.splits)

lemma matches_lookup:
  "matches d f \<Longrightarrow> map_of f k = Some c \<Longrightarrow> constraint_holds (map_of d k) c"
  by (auto simp: matches_def list_all_iff dest!: map_of_SomeD)

lemma id_list_filter_entry:
  assumes "all_field rt k (processedIds p) = Inr fk" and "map_of f k = map_of fk k"
  shows "(\<forall>xs. id_list p = Some xs \<longrightarrow>
            (\<exists>hs. list_all2 (parsed rt) xs hs
               \<and> map_of f k = Some (JObj [(''$all'', JArr hs)])
               \<and> (\<forall>d. matches d f \<longrightarrow>
                     (\<exists>ys. map_of d k = Some (JArr ys) \<and> set hs \<subseteq> set ys))))
       \<and> (id_list p = None \<longrightarrow> map_of f k = None)"
proof (cases "id_list p")
  case None
  with all_field_id_list[OF assms(1)] assms(2) show ?thesis by simp
next
  case (Some xs)
  with all_field_id_list[OF assms(1)] obtain hs where
    hs: "list_all2 (parsed rt) xs hs" "fk = [(k, JObj [(''$all'', JArr hs)])]"
    by auto
  with assms(2) have e: "map_of f k = Some (JObj [(''$all'', JArr hs)])"
    by simp
  have "\<exists>ys. map_of d k = Some (JArr ys) \<and> set hs \<subseteq> set ys" if "matches d f" for d
    using matches_lookup[OF that e] by (simp only: all_holds)
  with Some hs(1) e show ?thesis by auto
qed

text \<open>
  Claim C8. In a filter that \<open>buildFilter\<close> returns, an \<^verbatim>\<open>amenityIds\<close> (and likewise a
  \<^verbatim>\<open>tagIds\<close>) parameter given as one non-empty string is treated as the list of that one
  string; every entry of the list is parsed with \<^verbatim>\<open>new ObjectId\<close>; the filter carries the
  parsed identifiers under \<^verbatim>\<open>$all\<close>; and a document that matches the filter holds under that
  key a list that contains every one of them. Without the parameter the filter has no such
  entry. The constraint \<^verbatim>\<open>$all\<close> holds of a stored value exactly when that value is a list
  containing all the listed identifiers.
\<close>

theorem id_lists_are_normalised_and_all_required:
  assumes "buildFilter rt q = Inr f"
  shows "(\<forall>xs. id_list (amenityIds q) = Some xs \<longrightarrow>
            (\<exists>hs. list_all2 (parsed rt) xs hs
               \<and> map_of f ''amenityIds'' = Some (JObj [(''$all'', JArr hs)])
               \<and> (\<forall>d. matches d f \<longrightarrow>
                     (\<exists>ys. map_of d ''amenityIds'' = Some (JArr ys) \<and> set hs \<subseteq> set ys))))
       \<and> (id_list (amenityIds q) = None \<longrightarrow> map_of f ''amenityIds'' = None)
       \<and> (\<forall>xs. id_list (tagIds q) = Some xs \<longrightarrow>
            (\<exists>hs. list_all2 (parsed rt) xs hs
               \<and> map_of f ''tagIds'' = Some (JObj [(''$all'', JArr hs)])
               \<and> (\<forall>d. matches d f \<longrightarrow>
                     (\<exists>ys. map_of d ''tagIds'' = Some (JArr ys) \<and> set hs \<subseteq> set ys))))
       \<and> (id_list (tagIds q) = None \<longrightarrow> map_of f ''tagIds'' = None)
       \<and> id_list (Some (QStr (c # s))) = Some [c # s]
       \<and> (constraint_holds fv (JObj [(''$all'', JArr hs')]) \<longleftrightarrow>
            (\<exists>ys. fv = Some (JArr ys) \<and> set hs' \<subseteq> set ys))"
proof -
  from assms obtain f12 where
    a: "all_field rt ''amenityIds'' (processedIds (amenityIds q)) = Inr f12"
       "map_of f ''amenityIds'' = map_of f12 ''amenityIds''"
    by (rule buildFilter_amenityIds)
  from assms obtain f13 where
    t: "all_field rt ''tagIds'' (processedIds (tagIds q)) = Inr f13"
       "map_of f ''tagIds'' = map_of f13 ''tagIds''"
    by (rule buildFilter_tagIds)
  have s: "id_list (Some (QStr (c # s))) = Some [c # s]"
    by (simp add: id_list_def)
  show ?thesis
    using id_list_filter_entry[OF a] id_list_filter_entry[OF t] s all_holds[of fv hs']
    by (intro conjI) simp_all
qed


lemma one_amenity_built: "buildFilter node_rt one_amenity = Inr one_amenity_filter"
  by (simp add: buildFilter_def ebind_def one_amenity_def one_amenity_filter_def wifi_def
      empty_query_def field_defs node_defs)

lemma two_amenities_built: "buildFilter node_rt two_amenities = Inr two_amenities_filter"
  by (simp add: buildFilter_def ebind_def two_amenities_def two_amenities_filter_def wifi_def
      pool_def empty_query_def field_defs node_defs)

theorem id_lists_are_normalised_and_all_required_witness:
  "buildFilter node_rt one_amenity = Inr one_amenity_filter
   \<and> amenityIds one_amenity = Some (QStr wifi)
   \<and> id_list (amenityIds one_amenity) = Some [wifi]
   \<and> (\<exists>hs. list_all2 (parsed node_rt) [wifi] hs
          \<and> map_of one_amenity_filter ''amenityIds'' = Some (JObj [(''$all'', JArr hs)]))
   \<and> matches wifi_only one_amenity_filter
   \<and> buildFilter node_rt two_amenities = Inr two_amenities_filter
   \<and> id_list (amenityIds two_amenities) = Some [wifi, pool]
   \<and> map_of wifi_only ''amenityIds'' = Some (JArr [JOid wifi])
   \<and> \<not> matches wifi_only two_amenities_filter"
proof -
  have p: "amenityIds one_amenity = Some (QStr wifi)"
    by (simp add: one_amenity_def)
  have i1: "id_list (amenityIds one_amenity) = Some [wifi]"
    by (simp add: one_amenity_def id_list_def wifi_def)
  have i2: "id_list (amenityIds two_amenities) = Some [wifi, pool]"
    by (simp add: two_amenities_def id_list_def)
  have m1: "matches wifi_only one_amenity_filter"
    by (simp add: wifi_only_def one_amenity_filter_def store_defs)
  have w: "map_of wifi_only ''amenityIds'' = Some (JArr [JOid wifi])"
    by (simp add: wifi_only_def)
  have one: "\<forall>xs. id_list (amenityIds one_amenity) = Some xs \<longrightarrow>
            (\<exists>hs. list_all2 (parsed node_rt) xs hs
               \<and> map_of one_amenity_filter ''amenityIds'' = Some (JObj [(''$all'', JArr hs)])
               \<and> (\<forall>d. matches d one_amenity_filter \<longrightarrow>
                     (\<exists>ys. map_of d ''amenityIds'' = Some (JArr ys) \<and> set hs \<subseteq> set ys)))"
    using id_lists_are_normalised_and_all_required[OF one_amenity_built] by (rule conjunct1)
  have two: "\<forall>xs. id_list (amenityIds two_amenities) = Some xs \<longrightarrow>
            (\<exists>hs. list_all2 (parsed node_rt) xs hs
               \<and> map_of two_amenities_filter ''amenityIds'' = Some (JObj [(''$all'', JArr hs)])
               \<and> (\<forall>d. matches d two_amenities_filter \<longrightarrow>
                     (\<exists>ys. map_of d ''amenityIds'' = Some (JArr ys) \<and> set hs \<subseteq> set ys)))"
    using id_lists_are_normalised_and_all_required[OF two_amenities_built] by (rule conjunct1)
  from one[rule_format, OF i1] obtain hs1 where
    "list_all2 (parsed node_rt) [wifi] hs1"
    "map_of one_amenity_filter ''amenityIds'' = Some (JObj [(''$all'', JArr hs1)])"
    by (elim exE conjE)
  then have e1: "\<exists>hs. list_all2 (parsed node_rt) [wifi] hs
          \<and> map_of one_amenity_filter ''amenityIds'' = Some (JObj [(''$all'', JArr hs)])"
    by (intro exI[of _ hs1] conjI)
  have m2: "\<not> matches wifi_only two_amenities_filter"
  proof
    assume m: "matches wifi_only two_amenities_filter"
    from two[rule_format, OF i2] obtain hs where
      hs: "map_of two_amenities_filter ''amenityIds'' = Some (JObj [(''$all'', JArr hs)])"
          "\<forall>d. matches d two_amenities_filter \<longrightarrow>
             (\<exists>ys. map_of d ''amenityIds'' = Some (JArr ys) \<and> set hs \<subseteq> set ys)"
      by (elim exE conjE)
    from hs(1) have h: "hs = [JOid wifi, JOid pool]"
      by (simp add: two_amenities_filter_def)
    from hs(2)[rule_format, OF m] obtain ys where
      "map_of wifi_only ''amenityIds'' = Some (JArr ys)" "set hs \<subseteq> set ys"
      by (elim exE conjE)
    with w h have "JOid pool \<in> set [JOid wifi]"
      by simp
    then show False
      by (simp add: wifi_def pool_def)
  qed
  show ?thesis
    by (intro conjI) (rule one_amenity_built p i1 e1 m1 two_amenities_built i2 w m2)+
qed

end
